theory Spec2Isabelle
  imports Main
begin

section \<open>Python values handled by the client\<close>

text \<open>
  The client of \<^verbatim>\<open>qrcode_Scan_cookie_115_GUI.py\<close> handles the values that
  \<^verbatim>\<open>json.loads\<close> produces: \<^verbatim>\<open>None\<close>, booleans, integers, strings, lists and
  dictionaries with string keys. A dictionary is an association list read with
  \<open>map_of\<close>. A \<^verbatim>\<open>str\<close> is held as the bytes of its UTF-8 form, so that plain text is
  itself; a lone surrogate, which \<^verbatim>\<open>json.loads\<close> lets through (\<^verbatim>\<open>"\ud800"\<close>), is held
  as the three bytes that the \<^verbatim>\<open>surrogatepass\<close> form gives it: \<open>0xED\<close>, then a byte from
  \<open>0xA0\<close> on, then one more. Fractional numbers are left out of the model: the status
  codes of the protocol are integers.
\<close>

datatype json =
    JNull
  | JBool bool
  | JInt int
  | JStr string
  | JList "json list"
  | JDict "(string \<times> json) list"

type_synonym dict = "(string \<times> json) list"

type_synonym bytes = "nat list"

text \<open>Truth value of an object, as \<^verbatim>\<open>if x\<close> and \<^verbatim>\<open>not x\<close> test it.\<close>

fun truthy :: "json \<Rightarrow> bool" where
  "truthy JNull = False"
| "truthy (JBool b) = b"
| "truthy (JInt n) = (n \<noteq> 0)"
| "truthy (JStr s) = (s \<noteq> [])"
| "truthy (JList xs) = (xs \<noteq> [])"
| "truthy (JDict d) = (d \<noteq> [])"

text \<open>
  \<^verbatim>\<open>v == n\<close> for an integer literal \<open>n\<close>: an integer equals it by value, and so does a
  boolean (\<^verbatim>\<open>True == 1\<close>, \<^verbatim>\<open>False == 0\<close>); nothing else does.
\<close>

fun py_eq_int :: "json \<Rightarrow> int \<Rightarrow> bool" where
  "py_eq_int (JInt m) n = (m = n)"
| "py_eq_int (JBool b) n = ((if b then 1 else 0) = n)"
| "py_eq_int _ n = False"

text \<open>\<^verbatim>\<open>d.get(k, default)\<close> on a dictionary.\<close>

definition dict_get :: "dict \<Rightarrow> string \<Rightarrow> json \<Rightarrow> json" where
  "dict_get d k dflt = (case map_of d k of None \<Rightarrow> dflt | Some v \<Rightarrow> v)"

text \<open>\<^verbatim>\<open>d.pop(k)\<close> on a dictionary that has the key: the dictionary without it.\<close>

definition dict_pop :: "dict \<Rightarrow> string \<Rightarrow> dict" where
  "dict_pop d k = filter (\<lambda>kv. fst kv \<noteq> k) d"

text \<open>\<^verbatim>\<open>needle in s\<close> on strings: \<open>needle\<close> occurs in \<open>s\<close> as a contiguous run.\<close>

fun str_contains :: "string \<Rightarrow> string \<Rightarrow> bool" where
  "str_contains [] needle = (needle = [])"
| "str_contains (c # cs) needle =
     (take (length needle) (c # cs) = needle \<or> str_contains cs needle)"

text \<open>
  Whether a \<^verbatim>\<open>str\<close> holds a lone surrogate: \<^verbatim>\<open>s.encode('utf-8')\<close> raises
  \<^verbatim>\<open>UnicodeEncodeError\<close> for such a string and for no other.
\<close>

fun has_surrogate :: "string \<Rightarrow> bool" where
  "has_surrogate (a # b # cs) =
     ((of_char a = (237 :: nat) \<and> (160 :: nat) \<le> of_char b) \<or> has_surrogate (b # cs))"
| "has_surrogate cs = False"

section \<open>The device classes\<close>

text \<open>
  \<^verbatim>\<open>AppEnum = Enum("AppEnum", "web, android, ios, linux, mac, windows, tv,
  alipaymini, wechatmini, qandroid")\<close>: the functional API numbers the members from 1.
\<close>

datatype AppEnum =
  web | android | ios | linux | mac | windows | tv | alipaymini | wechatmini | qandroid

definition members :: "AppEnum list" where
  "members = [web, android, ios, linux, mac, windows, tv, alipaymini, wechatmini, qandroid]"

fun enum_name :: "AppEnum \<Rightarrow> string" where
  "enum_name web = ''web''"
| "enum_name android = ''android''"
| "enum_name ios = ''ios''"
| "enum_name linux = ''linux''"
| "enum_name mac = ''mac''"
| "enum_name windows = ''windows''"
| "enum_name tv = ''tv''"
| "enum_name alipaymini = ''alipaymini''"
| "enum_name wechatmini = ''wechatmini''"
| "enum_name qandroid = ''qandroid''"

fun enum_value :: "AppEnum \<Rightarrow> int" where
  "enum_value web = 1"
| "enum_value android = 2"
| "enum_value ios = 3"
| "enum_value linux = 4"
| "enum_value mac = 5"
| "enum_value windows = 6"
| "enum_value tv = 7"
| "enum_value alipaymini = 8"
| "enum_value wechatmini = 9"
| "enum_value qandroid = 10"

text \<open>The argument \<^verbatim>\<open>val\<close> of \<^verbatim>\<open>get_enum_name\<close>: a member of the enumeration, or any
  other value.\<close>

datatype app_arg = Member AppEnum | Val json

section \<open>Exceptions\<close>

text \<open>
  What \<^verbatim>\<open>urlopen\<close>, \<^verbatim>\<open>response.read\<close> and \<^verbatim>\<open>loads\<close> raise, by the classes the handlers
  of the source tell apart, each with the text \<^verbatim>\<open>str(e)\<close>. \<open>OtherException\<close> is every
  other subclass of \<^verbatim>\<open>Exception\<close> (a malformed body, for one).
\<close>

datatype transport_error =
    TimeoutError string
  | URLError string
  | HTTPError string
  | OtherException string

fun str_of :: "transport_error \<Rightarrow> string" where
  "str_of (TimeoutError s) = s"
| "str_of (URLError s) = s"
| "str_of (HTTPError s) = s"
| "str_of (OtherException s) = s"

text \<open>
  The messages of the \<^verbatim>\<open>RuntimeError\<close>s the worker raises, named by their place in
  the source. An error message taken from a response is \<open>Some\<close> of the value found
  there, and \<open>None\<close> where the source falls back on its literal default text.
\<close>

datatype reason =
    TokenFailed "json option"          \<comment> \<open>line 293\<close>
  | TokenMalformed json                \<comment> \<open>line 296\<close>
  | ScanTimeout                        \<comment> \<open>line 312\<close>
  | CookieEmpty json                   \<comment> \<open>line 351\<close>
  | CookieFailed string "json option"  \<comment> \<open>line 357\<close>
  | QRExpired json                     \<comment> \<open>line 360\<close>
  | LoginCancelled json                \<comment> \<open>line 362\<close>
  | Unexpected transport_error         \<comment> \<open>lines 60, 112, 126\<close>

text \<open>The two \<^verbatim>\<open>ValueError\<close>s, each with the argument it names.\<close>

datatype value_error =
    NotAMember app_arg                 \<comment> \<open>line 43\<close>
  | InvalidApp app_arg                 \<comment> \<open>line 96\<close>

text \<open>
  The exceptions that reach the worker: those the API functions raise, and those the
  interpreter raises on a value of the wrong shape.
\<close>

datatype exc =
    ConnectionError transport_error    \<comment> \<open>lines 58, 110, 124\<close>
  | RuntimeError reason
  | ValueError value_error
  | AttributeError
  | KeyError
  | TypeError
  | UnicodeEncodeError

section \<open>Resolving the device class\<close>

text \<open>\<^verbatim>\<open>cls[val]\<close>: the member of that name, \<open>None\<close> for \<^verbatim>\<open>KeyError\<close>.\<close>

definition by_name :: "string \<Rightarrow> AppEnum option" where
  "by_name s = find (\<lambda>m. enum_name m = s) members"

text \<open>\<^verbatim>\<open>cls(val)\<close>: the member whose value equals \<^verbatim>\<open>val\<close>, \<open>None\<close> for \<^verbatim>\<open>ValueError\<close>.\<close>

definition by_value :: "json \<Rightarrow> AppEnum option" where
  "by_value v = find (\<lambda>m. py_eq_int v (enum_value m)) members"

text \<open>
  \<^verbatim>\<open>get_enum_name(val, cls)\<close>, lines 30-43, at \<^verbatim>\<open>cls = AppEnum\<close> (its only use). The
  error is the \<^verbatim>\<open>ValueError\<close> of line 43.
\<close>

definition get_enum_name :: "app_arg \<Rightarrow> exc + string" where
  "get_enum_name val =
     (case val of
        Member m \<Rightarrow> Inr (enum_name m)
      | Val v \<Rightarrow>
          (case (case v of JStr s \<Rightarrow> by_name s | _ \<Rightarrow> None) of
             Some m \<Rightarrow> Inr (enum_name m)
           | None \<Rightarrow>
               (case by_value v of
                  Some m \<Rightarrow> Inr (enum_name m)
                | None \<Rightarrow> Inl (ValueError (NotAMember val)))))"

section \<open>The remote calls\<close>

text \<open>
  A request is its endpoint and the parameters that the source puts into the URL or
  the body. \<open>StatusReq\<close> carries the query parameters, \<open>ResultReq\<close> the canonical app
  name and the uid, \<open>ImageReq\<close> the uid.
\<close>

datatype request =
    TokenReq
  | StatusReq dict
  | ResultReq string json
  | ImageReq json

text \<open>
  What the worker does that can be seen from outside it, in the order it does it:
  the calls of the GUI methods, the remote calls with what came back, the sleeps
  (in seconds) and the warnings printed.
\<close>

datatype error_text =
    ErrLogin exc                       \<comment> \<open>line 374\<close>
  | ErrChooseApp                       \<comment> \<open>line 269\<close>
  | ErrShowQR                          \<comment> \<open>line 229\<close>

datatype status_text =
    MsgGetToken                        \<comment> \<open>line 289\<close>
  | MsgDownloadQR                      \<comment> \<open>line 301\<close>
  | MsgWaitingScan                     \<comment> \<open>lines 306, 341\<close>
  | MsgPollError exc                   \<comment> \<open>line 320\<close>
  | MsgEmptyPoll                       \<comment> \<open>line 327\<close>
  | MsgPollFailed "json option"        \<comment> \<open>line 332\<close>
  | MsgScanned                         \<comment> \<open>line 343\<close>
  | MsgConfirmed                       \<comment> \<open>line 345\<close>
  | MsgLoginSuccess                    \<comment> \<open>line 353\<close>
  | MsgNetworkRetry json               \<comment> \<open>line 364\<close>
  | MsgUnknownStatus json json         \<comment> \<open>line 366\<close>
  | MsgStopped                         \<comment> \<open>line 371\<close>
  | MsgGettingQR                       \<comment> \<open>line 273\<close>
  | MsgStopping                        \<comment> \<open>line 382\<close>
  | MsgNothingToStop                   \<comment> \<open>line 384\<close>
  | MsgError error_text                \<comment> \<open>line 245\<close>

datatype info_text =
    InfoRunning                        \<comment> \<open>line 264\<close>
  | InfoSuccess string                 \<comment> \<open>line 354\<close>

datatype warning =
    WarnStatus transport_error         \<comment> \<open>lines 80, 83\<close>
  | WarnUnknown json                   \<comment> \<open>line 367\<close>

datatype event =
    Status status_text                 \<comment> \<open>\<^verbatim>\<open>update_status\<close>\<close>
  | ErrorBox error_text                \<comment> \<open>the message box of \<^verbatim>\<open>show_error\<close>\<close>
  | InfoBox info_text                  \<comment> \<open>\<^verbatim>\<open>show_info\<close>\<close>
  | QRImage bytes                      \<comment> \<open>line 227: the label shows the image\<close>
  | QRPlaceholder                      \<comment> \<open>line 231: the label shows the failure text\<close>
  | QRLoading                          \<comment> \<open>line 278\<close>
  | Cookies dict                       \<comment> \<open>\<^verbatim>\<open>display_cookies\<close>\<close>
  | ClearCookies                       \<comment> \<open>lines 274-276\<close>
  | Remote request "transport_error + json"
  | ImageFetch json "transport_error + bytes"
  | Sleep nat
  | Print warning
  | SetUiState string                  \<comment> \<open>\<^verbatim>\<open>set_ui_state\<close>, called or scheduled\<close>

fun is_remote :: "event \<Rightarrow> bool" where
  "is_remote (Remote q r) = True"
| "is_remote (ImageFetch u r) = True"
| "is_remote _ = False"

text \<open>
  \<^verbatim>\<open>urlopen\<close> followed by \<^verbatim>\<open>response.read()\<close> and \<^verbatim>\<open>loads\<close> is the network as the
  function sees it: it answers a request with the decoded body or raises.
\<close>

type_synonym urlopen = "request \<Rightarrow> transport_error + json"

text \<open>\<^verbatim>\<open>except (URLError, HTTPError, TimeoutError)\<close> against \<^verbatim>\<open>except Exception\<close>.\<close>

fun wrap_error :: "transport_error \<Rightarrow> exc" where
  "wrap_error (OtherException s) = RuntimeError (Unexpected (OtherException s))"
| "wrap_error e = ConnectionError e"

text \<open>\<^verbatim>\<open>get_qrcode_token\<close>, lines 46-60.\<close>

definition get_qrcode_token :: "urlopen \<Rightarrow> event list \<times> (exc + json)" where
  "get_qrcode_token net =
     (let r = net TokenReq in
      ([Remote TokenReq r],
       case r of Inr resp \<Rightarrow> Inr resp | Inl e \<Rightarrow> Inl (wrap_error e)))"

text \<open>The two responses that \<^verbatim>\<open>get_qrcode_status\<close> makes up, lines 78 and 81/84.\<close>

definition waiting_response :: json where
  "waiting_response = JDict [(''state'', JBool True), (''data'', JDict [(''status'', JInt 0)])]"

definition network_error_response :: "string \<Rightarrow> json" where
  "network_error_response s =
     JDict [(''state'', JBool False), (''error'', JStr s),
            (''data'', JDict [(''status'', JInt (- 99))])]"

text \<open>
  \<^verbatim>\<open>urlencode(payload)\<close> of the standard library, as line 72 calls it. It takes the
  items of a mapping and quotes \<^verbatim>\<open>str(k)\<close> and \<^verbatim>\<open>str(v)\<close> of each as UTF-8, which
  fails on a key or a string value with a lone surrogate (the \<^verbatim>\<open>str\<close> of any other
  value is its \<^verbatim>\<open>repr\<close>, which escapes surrogates). Of the other values only an empty
  sequence passes, as no parameters; a list of \<^verbatim>\<open>json.loads\<close> holds no tuples, a
  non-empty string is refused, and \<^verbatim>\<open>len\<close> fails on the rest. The result stands for
  the query string: the parameters it encodes.
\<close>

definition unencodable :: "dict \<Rightarrow> bool" where
  "unencodable d =
     list_ex (\<lambda>kv. map_of d (fst kv) = Some (snd kv) \<and>
                 (has_surrogate (fst kv) \<or>
                  (case snd kv of JStr s \<Rightarrow> has_surrogate s | _ \<Rightarrow> False))) d"

fun urlencode :: "json \<Rightarrow> exc + dict" where
  "urlencode (JDict d) = (if unencodable d then Inl UnicodeEncodeError else Inr d)"
| "urlencode (JList xs) = (if xs = [] then Inr [] else Inl TypeError)"
| "urlencode (JStr s) = (if s = [] then Inr [] else Inl TypeError)"
| "urlencode v = Inl TypeError"

text \<open>
  \<^verbatim>\<open>get_qrcode_status\<close>, lines 63-84. \<^verbatim>\<open>urlencode\<close> builds the query string from the
  payload at line 72, before the \<^verbatim>\<open>try\<close>: what it raises reaches the caller, and no
  request is made. The handlers of the \<^verbatim>\<open>try\<close> are tried in the order of the source.
\<close>

definition get_qrcode_status :: "urlopen \<Rightarrow> json \<Rightarrow> event list \<times> (exc + json)" where
  "get_qrcode_status net payload =
     (case urlencode payload of
        Inl ex \<Rightarrow> ([], Inl ex)
      | Inr query \<Rightarrow>
          (let r = net (StatusReq query) in
           case r of
             Inr resp \<Rightarrow> ([Remote (StatusReq query) r], Inr resp)
           | Inl (TimeoutError s) \<Rightarrow> ([Remote (StatusReq query) r], Inr waiting_response)
           | Inl e \<Rightarrow>
               ([Remote (StatusReq query) r, Print (WarnStatus e)],
                Inr (network_error_response (str_of e)))))"

text \<open>\<^verbatim>\<open>post_qrcode_result\<close>, lines 86-112.\<close>

definition post_qrcode_result :: "urlopen \<Rightarrow> json \<Rightarrow> app_arg \<Rightarrow> event list \<times> (exc + json)" where
  "post_qrcode_result net uid app =
     (case get_enum_name app of
        Inl e \<Rightarrow> ([], Inl (ValueError (InvalidApp app)))
      | Inr app_name \<Rightarrow>
          (let r = net (ResultReq app_name uid) in
           ([Remote (ResultReq app_name uid) r],
            case r of Inr resp \<Rightarrow> Inr resp | Inl e \<Rightarrow> Inl (wrap_error e))))"

text \<open>\<^verbatim>\<open>get_qrcode\<close>, lines 114-126: the image bytes.\<close>

definition get_qrcode :: "(json \<Rightarrow> transport_error + bytes) \<Rightarrow> json \<Rightarrow> event list \<times> (exc + bytes)" where
  "get_qrcode net uid =
     (let r = net uid in
      ([ImageFetch uid r],
       case r of Inr data \<Rightarrow> Inr data | Inl e \<Rightarrow> Inl (wrap_error e)))"

section \<open>The GUI methods the worker calls\<close>

text \<open>\<^verbatim>\<open>show_error\<close>, lines 242-245: the message box, then the status line.\<close>

definition show_error :: "error_text \<Rightarrow> event list" where
  "show_error m = [ErrorBox m, Status (MsgError m)]"

text \<open>\<^verbatim>\<open>obj.get(k, default)\<close>: only a dictionary has the method.\<close>

fun get_attr :: "json \<Rightarrow> string \<Rightarrow> json \<Rightarrow> exc + json" where
  "get_attr (JDict d) k dflt = Inr (dict_get d k dflt)"
| "get_attr _ k dflt = Inl AttributeError"

text \<open>
  \<^verbatim>\<open>resp.get('msg') or resp.get('error', default)\<close> on a dictionary; \<open>None\<close> is the
  literal default of the source.
\<close>

definition err_msg :: "dict \<Rightarrow> json option" where
  "err_msg d =
     (let m = dict_get d ''msg'' JNull in
      if truthy m then Some m else map_of d ''error'')"

text \<open>
  \<^verbatim>\<open>display_cookies\<close>, lines 233-240: \<^verbatim>\<open>cookie_dict.items()\<close> needs a dictionary.
\<close>

definition display_cookies :: "json \<Rightarrow> exc + event list" where
  "display_cookies cookies =
     (case cookies of JDict c \<Rightarrow> Inr [Cookies c] | _ \<Rightarrow> Inl AttributeError)"

section \<open>The environment of one session\<close>

text \<open>
  The worker reads the stop event at four places: in the loop condition (line 310),
  after the sleep (315), after the poll (324) and after the loop (370).
\<close>

datatype checkpoint = AtLoopHead | AfterSleep | AfterPoll | AfterLoop

text \<open>
  Everything the worker does not decide itself. The network: what each of its calls
  meets (the polls numbered by the iteration of the loop, from 0). \<open>image_opens\<close>:
  whether Pillow and Tk can show the bytes (lines 220-227). The clock: the reading of
  \<^verbatim>\<open>time.monotonic()\<close> at line 307 in milliseconds, and the time that iteration \<open>i\<close>
  takes beyond its sleeps. The other thread: the value of \<^verbatim>\<open>polling_active\<close> read at
  the head of iteration \<open>i\<close>, and the stop event as read at each checkpoint of it.
\<close>

record env =
  net_token :: urlopen
  net_image :: "json \<Rightarrow> transport_error + bytes"
  net_status :: "nat \<Rightarrow> urlopen"
  net_result :: urlopen
  image_opens :: "bytes \<Rightarrow> bool"
  monotonic0 :: int
  latency :: "nat \<Rightarrow> nat"
  active_read :: "nat \<Rightarrow> bool"
  is_set :: "nat \<Rightarrow> checkpoint \<Rightarrow> bool"

text \<open>\<^verbatim>\<open>display_qr_code\<close>, lines 218-231: a failure is shown and swallowed.\<close>

definition display_qr_code :: "env \<Rightarrow> bytes \<Rightarrow> event list" where
  "display_qr_code e image_data =
     (if image_opens e image_data then [QRImage image_data]
      else show_error ErrShowQR @ [QRPlaceholder])"

section \<open>The worker\<close>

text \<open>
  Lines 295-298 on the value of \<^verbatim>\<open>token_resp["data"]\<close>: the two membership tests,
  \<^verbatim>\<open>pop("qrcode")\<close> and the lookup of the uid. The result is the payload of the polls
  (the token without its \<^verbatim>\<open>qrcode\<close> entry) and the uid.
\<close>

fun split_token :: "json \<Rightarrow> exc + (dict \<times> json)" where
  "split_token (JDict d) =
     (case (map_of d ''qrcode'', map_of d ''uid'') of
        (Some q, Some uid) \<Rightarrow> Inr (dict_pop d ''qrcode'', uid)
      | _ \<Rightarrow> Inl (RuntimeError (TokenMalformed (JDict d))))"
| "split_token (JList xs) =
     (if JStr ''qrcode'' \<in> set xs \<and> JStr ''uid'' \<in> set xs then Inl TypeError
      else Inl (RuntimeError (TokenMalformed (JList xs))))"
| "split_token (JStr s) =
     (if str_contains s ''qrcode'' \<and> str_contains s ''uid'' then Inl AttributeError
      else Inl (RuntimeError (TokenMalformed (JStr s))))"
| "split_token v = Inl TypeError"

text \<open>Lines 291-298 on the token response.\<close>

definition check_token :: "json \<Rightarrow> exc + (dict \<times> json)" where
  "check_token token_resp =
     (case token_resp of
        JDict d \<Rightarrow>
          if d = [] \<or> \<not> truthy (dict_get d ''state'' JNull)
          then Inl (RuntimeError (TokenFailed (err_msg d)))
          else (case map_of d ''data'' of
                  None \<Rightarrow> Inl KeyError
                | Some tok \<Rightarrow> split_token tok)
      | _ \<Rightarrow> Inl AttributeError)"

text \<open>How one pass through the loop body ends.\<close>

datatype flow = Continue | Break | Raise exc

text \<open>Lines 348-358: what the worker does with the result of the exchange.\<close>

definition finish_login :: "string \<Rightarrow> json \<Rightarrow> event list \<times> flow" where
  "finish_login selected_app login_result =
     (case login_result of
        JDict d \<Rightarrow>
          if d \<noteq> [] \<and> truthy (dict_get d ''state'' JNull) then
            (case dict_get d ''data'' (JDict []) of
               JDict dd \<Rightarrow>
                 (let cookies = dict_get dd ''cookie'' (JDict []) in
                  if \<not> truthy cookies
                  then ([], Raise (RuntimeError (CookieEmpty login_result)))
                  else (case display_cookies cookies of
                          Inl e \<Rightarrow> ([], Raise e)
                        | Inr evs \<Rightarrow>
                            (evs @ [Status MsgLoginSuccess, InfoBox (InfoSuccess selected_app)],
                             Break)))
             | _ \<Rightarrow> ([], Raise AttributeError))
          else ([], Raise (RuntimeError (CookieFailed selected_app (err_msg d))))
      | _ \<Rightarrow> ([], Raise AttributeError))"

text \<open>Lines 344-358: the branch of a confirmed login.\<close>

definition confirm_login :: "urlopen \<Rightarrow> json \<Rightarrow> string \<Rightarrow> event list \<times> flow" where
  "confirm_login net uid selected_app =
     (case post_qrcode_result net uid (Val (JStr selected_app)) of
        (evs, Inl e) \<Rightarrow> (Status MsgConfirmed # evs, Raise e)
      | (evs, Inr login_result) \<Rightarrow>
          (Status MsgConfirmed # evs @ fst (finish_login selected_app login_result),
           snd (finish_login selected_app login_result)))"

text \<open>Lines 340-367: the dispatch on the status code.\<close>

definition dispatch :: "urlopen \<Rightarrow> json \<Rightarrow> string \<Rightarrow> json \<Rightarrow> dict \<Rightarrow> event list \<times> flow" where
  "dispatch net uid selected_app status_resp status_data =
     (let status = dict_get status_data ''status'' JNull;
          status_msg = dict_get status_data ''msg'' (JStr [])
      in if py_eq_int status 0 then ([Status MsgWaitingScan], Continue)
         else if py_eq_int status 1 then ([Status MsgScanned], Continue)
         else if py_eq_int status 2 then confirm_login net uid selected_app
         else if py_eq_int status (- 1) then ([], Raise (RuntimeError (QRExpired status_msg)))
         else if py_eq_int status (- 2) then ([], Raise (RuntimeError (LoginCancelled status_msg)))
         else if py_eq_int status (- 99) then
           (case get_attr status_resp ''error'' JNull of
              Inl e \<Rightarrow> ([], Raise e)
            | Inr err \<Rightarrow> ([Status (MsgNetworkRetry err)], Continue))
         else ([Status (MsgUnknownStatus status (JDict status_data)),
                Print (WarnUnknown status_resp)], Continue))"

text \<open>Lines 326-367: what the worker does with the response of a poll.\<close>

definition handle_status :: "urlopen \<Rightarrow> json \<Rightarrow> string \<Rightarrow> json \<Rightarrow> event list \<times> flow" where
  "handle_status net uid selected_app status_resp =
     (if \<not> truthy status_resp then ([Status MsgEmptyPoll], Continue)
      else case status_resp of
        JDict d \<Rightarrow>
          if \<not> truthy (dict_get d ''state'' JNull)
          then ([Status (MsgPollFailed (err_msg d))], Continue)
          else (case dict_get d ''data'' (JDict []) of
                  JDict status_data \<Rightarrow> dispatch net uid selected_app status_resp status_data
                | _ \<Rightarrow> ([], Raise AttributeError))
      | _ \<Rightarrow> ([], Raise AttributeError))"

text \<open>
  Lines 314-367: the body of the polling loop in iteration \<open>i\<close>, after the check of
  the timeout.
\<close>

definition loop_body :: "env \<Rightarrow> dict \<Rightarrow> json \<Rightarrow> string \<Rightarrow> nat \<Rightarrow> event list \<times> flow" where
  "loop_body e payload uid selected_app i =
     (if is_set e i AfterSleep then ([Sleep 2], Break)
      else case get_qrcode_status (net_status e i) (JDict payload) of
        (evs, Inl poll_err) \<Rightarrow>
          (Sleep 2 # evs @ [Status (MsgPollError poll_err), Sleep 3], Continue)
      | (evs, Inr status_resp) \<Rightarrow>
          if is_set e i AfterPoll then (Sleep 2 # evs, Break)
          else (Sleep 2 # evs @ fst (handle_status (net_result e) uid selected_app status_resp),
                snd (handle_status (net_result e) uid selected_app status_resp)))"

text \<open>The seconds slept in a run of events.\<close>

fun slept :: "event list \<Rightarrow> nat" where
  "slept [] = 0"
| "slept (Sleep n # evs) = n + slept evs"
| "slept (ev # evs) = slept evs"

text \<open>Lines 370-371, reached when the loop ends in iteration \<open>i\<close> without raising.\<close>

definition after_loop :: "env \<Rightarrow> nat \<Rightarrow> event list" where
  "after_loop e i = (if is_set e i AfterLoop then [Status MsgStopped] else [])"

definition timeout_seconds :: int where
  "timeout_seconds = 180"

lemma loop_body_slept: "2 \<le> slept (fst (loop_body e payload uid selected_app i))"
  by (simp add: loop_body_def split: prod.split sum.split)

lemma loop_body_advances:
  "- int l < 1000 * int (slept (fst (loop_body e payload uid selected_app i)))"
  using loop_body_slept [of e payload uid selected_app i] by linarith

text \<open>
  Lines 310-371: the polling loop from iteration \<open>i\<close> on, entered when the clock reads
  \<open>now\<close> (milliseconds), and the statement after it. The result is the events and the
  exception that leaves the loop, if one does. A sleep takes at least its time, so
  the clock has moved on by the sleeps and the latency of the iteration when the
  next one begins.
\<close>

function poll_loop ::
  "env \<Rightarrow> dict \<Rightarrow> json \<Rightarrow> string \<Rightarrow> int \<Rightarrow> int \<Rightarrow> nat \<Rightarrow> event list \<times> exc option" where
  "poll_loop e payload uid selected_app start_time now i =
     (if \<not> (active_read e i \<and> \<not> is_set e i AtLoopHead) then (after_loop e i, None)
      else if now - start_time > timeout_seconds * 1000
      then ([], Some (RuntimeError ScanTimeout))
      else (case snd (loop_body e payload uid selected_app i) of
              Continue \<Rightarrow>
                (let evs = fst (loop_body e payload uid selected_app i);
                     rest = poll_loop e payload uid selected_app start_time
                              (now + 1000 * int (slept evs) + int (latency e i)) (Suc i)
                 in (evs @ fst rest, snd rest))
            | Break \<Rightarrow> (fst (loop_body e payload uid selected_app i) @ after_loop e i, None)
            | Raise ex \<Rightarrow> (fst (loop_body e payload uid selected_app i), Some ex)))"
  by pat_completeness auto
termination
proof (relation "measure (\<lambda>(e, payload, uid, selected_app, start_time, now, i).
                   nat (start_time + timeout_seconds * 1000 + 1 - now))", goal_cases)
  case 1
  show ?case by simp
next
  case 2
  then show ?case
    by (simp add: loop_body_advances)
qed

declare poll_loop.simps [simp del]

text \<open>
  Lines 288-371: the \<^verbatim>\<open>try\<close> block of the worker. The result is the events and the
  exception that leaves the block, if one does.
\<close>

definition login_body :: "env \<Rightarrow> string \<Rightarrow> event list \<times> exc option" where
  "login_body e selected_app =
     (case get_qrcode_token (net_token e) of
        (evs1, Inl ex) \<Rightarrow> (Status MsgGetToken # evs1, Some ex)
      | (evs1, Inr token_resp) \<Rightarrow>
          (case check_token token_resp of
             Inl ex \<Rightarrow> (Status MsgGetToken # evs1, Some ex)
           | Inr (payload, uid) \<Rightarrow>
               (case get_qrcode (net_image e) uid of
                  (evs2, Inl ex) \<Rightarrow>
                    (Status MsgGetToken # evs1 @ Status MsgDownloadQR # evs2, Some ex)
                | (evs2, Inr qr_image_data) \<Rightarrow>
                    (let rest = poll_loop e payload uid selected_app
                                  (monotonic0 e) (monotonic0 e) 0
                     in (Status MsgGetToken # evs1 @ Status MsgDownloadQR # evs2 @
                           display_qr_code e qr_image_data @
                           Status MsgWaitingScan # fst rest,
                         snd rest)))))"

text \<open>
  The state of the application that the claims are about: the guard against a second
  session, the selection of the combo box, the app type a session was started
  with, and the stop event.
\<close>

record gui =
  polling_active :: bool
  selected_app_type_var :: string
  current_app_type :: string
  stop_event :: bool

text \<open>\<^verbatim>\<open>set_ui_state\<close>, lines 251-260: its effect on the state (the rest configures
  widgets).\<close>

definition set_ui_state :: "string \<Rightarrow> gui \<Rightarrow> gui" where
  "set_ui_state state g =
     (if state = ''running'' then g
      else if state = ''finished'' \<or> state = ''idle'' then g\<lparr>polling_active := False\<rparr>
      else g)"

text \<open>
  \<^verbatim>\<open>_login_thread_func\<close>, lines 284-377: the \<^verbatim>\<open>try\<close> block, the handler of line 373
  and the \<^verbatim>\<open>finally\<close> block, whose scheduled call of \<^verbatim>\<open>set_ui_state\<close> the main loop
  then runs.
\<close>

definition login_thread_func :: "env \<Rightarrow> gui \<Rightarrow> event list \<times> gui" where
  "login_thread_func e g =
     (let g1 = g\<lparr>polling_active := True\<rparr>;
          r = login_body e (current_app_type g1);
          handler = (case snd r of None \<Rightarrow> [] | Some ex \<Rightarrow> show_error (ErrLogin ex));
          g2 = g1\<lparr>polling_active := False\<rparr>
      in (fst r @ handler @ [SetUiState ''finished''], set_ui_state ''finished'' g2))"

text \<open>
  \<^verbatim>\<open>start_login_process\<close>, lines 262-282. Starting the thread is running the worker
  in the environment that the session meets.
\<close>

definition start_login_process :: "env \<Rightarrow> gui \<Rightarrow> event list \<times> gui" where
  "start_login_process e g =
     (if polling_active g then ([InfoBox InfoRunning], g)
      else (let g1 = g\<lparr>current_app_type := selected_app_type_var g\<rparr> in
            if current_app_type g1 = [] then (show_error ErrChooseApp, g1)
            else (let g2 = (set_ui_state ''running'' g1)\<lparr>stop_event := False\<rparr>;
                      r = login_thread_func e g2
                  in ([SetUiState ''running'', Status MsgGettingQR, ClearCookies, QRLoading]
                        @ fst r,
                      snd r))))"

section \<open>The main thread while the worker runs\<close>

text \<open>
  \<^verbatim>\<open>stop_polling\<close>, lines 379-385; \<open>alive\<close> is the test of line 380. The call of
  \<^verbatim>\<open>set_ui_state('finished')\<close> that it schedules runs in the main loop at once.
\<close>

definition stop_polling :: "bool \<Rightarrow> gui \<Rightarrow> event list \<times> gui" where
  "stop_polling alive g =
     (if alive
      then ([Status MsgStopping, SetUiState ''finished''],
            set_ui_state ''finished'' (g\<lparr>stop_event := True\<rparr>))
      else ([Status MsgNothingToStop, SetUiState ''finished''],
            set_ui_state ''finished'' g))"

text \<open>
  What a call of \<^verbatim>\<open>start_login_process\<close> does to the state while an earlier worker
  is still running: past the guard of line 263 and the test of line 268 it clears
  the stop event (line 279) and starts a second worker, which sets the guard (line
  285).
\<close>

definition start_again :: "gui \<Rightarrow> gui" where
  "start_again g =
     (if polling_active g then g
      else (let g1 = g\<lparr>current_app_type := selected_app_type_var g\<rparr> in
            if current_app_type g1 = [] then g1
            else g1\<lparr>stop_event := False, polling_active := True\<rparr>))"

text \<open>
  What the main thread may do while a worker runs: the user presses stop (the thread
  that \<^verbatim>\<open>poll_thread\<close> names being alive), the user presses the button that starts a
  login, or a second worker started that way comes to its \<^verbatim>\<open>finally\<close> block.
\<close>

datatype ui_action = PressStop | PressStart | SecondWorkerEnds

fun ui_step :: "ui_action \<Rightarrow> gui \<Rightarrow> gui" where
  "ui_step PressStop g = snd (stop_polling True g)"
| "ui_step PressStart g = start_again g"
| "ui_step SecondWorkerEnds g = set_ui_state ''finished'' (g\<lparr>polling_active := False\<rparr>)"

definition ui_steps :: "ui_action list \<Rightarrow> gui \<Rightarrow> gui" where
  "ui_steps acts g = fold ui_step acts g"

text \<open>
  A schedule tells what the main thread does before each reading of the worker: the
  actions between the reading before and the one at checkpoint \<open>c\<close> of iteration
  \<open>i\<close> (for the head of iteration 0, since the worker began).
\<close>

type_synonym schedule = "nat \<Rightarrow> checkpoint \<Rightarrow> ui_action list"

text \<open>
  The state that the worker finds at line 310 of iteration \<open>i\<close>, at line 315, at line
  324, and at line 370 when the loop ends in iteration \<open>i\<close>: there the loop was left
  at the head, after the sleep, or after the poll.
\<close>

primrec at_head :: "schedule \<Rightarrow> gui \<Rightarrow> nat \<Rightarrow> gui" where
  "at_head sched g 0 = ui_steps (sched 0 AtLoopHead) g"
| "at_head sched g (Suc i) =
     ui_steps (sched (Suc i) AtLoopHead)
       (ui_steps (sched i AfterPoll) (ui_steps (sched i AfterSleep) (at_head sched g i)))"

definition at_sleep :: "schedule \<Rightarrow> gui \<Rightarrow> nat \<Rightarrow> gui" where
  "at_sleep sched g i = ui_steps (sched i AfterSleep) (at_head sched g i)"

definition at_poll :: "schedule \<Rightarrow> gui \<Rightarrow> nat \<Rightarrow> gui" where
  "at_poll sched g i = ui_steps (sched i AfterPoll) (at_sleep sched g i)"

definition at_exit :: "schedule \<Rightarrow> gui \<Rightarrow> nat \<Rightarrow> gui" where
  "at_exit sched g i =
     ui_steps (sched i AfterLoop)
       (if \<not> (polling_active (at_head sched g i) \<and> \<not> stop_event (at_head sched g i))
        then at_head sched g i
        else if stop_event (at_sleep sched g i) then at_sleep sched g i
        else at_poll sched g i)"

text \<open>
  The state in which a worker begins: \<^verbatim>\<open>start_login_process\<close> has cleared the event
  (line 279) and the worker has set the guard (line 285).
\<close>

definition worker_start :: "gui \<Rightarrow> gui" where
  "worker_start g = g\<lparr>polling_active := True, stop_event := False\<rparr>"

text \<open>
  The environment of a worker whose readings of the guard and of the stop event are
  those that the schedule of the main thread gives.
\<close>

definition interleave :: "schedule \<Rightarrow> gui \<Rightarrow> env \<Rightarrow> env" where
  "interleave sched g e =
     e\<lparr> active_read := (\<lambda>i. polling_active (at_head sched (worker_start g) i)),
        is_set := (\<lambda>i c. stop_event
          (case c of
             AtLoopHead \<Rightarrow> at_head sched (worker_start g) i
           | AfterSleep \<Rightarrow> at_sleep sched (worker_start g) i
           | AfterPoll \<Rightarrow> at_poll sched (worker_start g) i
           | AfterLoop \<Rightarrow> at_exit sched (worker_start g) i)) \<rparr>"

section \<open>Reading a run\<close>

text \<open>The remote calls of a run, in order.\<close>

definition remote_calls :: "event list \<Rightarrow> event list" where
  "remote_calls evs = filter is_remote evs"

fun is_poll :: "event \<Rightarrow> bool" where
  "is_poll (Remote (StatusReq p) r) = True"
| "is_poll _ = False"

fun is_exchange :: "event \<Rightarrow> bool" where
  "is_exchange (Remote (ResultReq a u) r) = True"
| "is_exchange _ = False"

text \<open>
  What the loop reads in the response of a poll: \<^verbatim>\<open>status_resp.get("state")\<close>, and
  \<^verbatim>\<open>status_resp.get("data", {})\<close> when that is a dictionary.
\<close>

fun state_of :: "json \<Rightarrow> json" where
  "state_of (JDict d) = dict_get d ''state'' JNull"
| "state_of _ = JNull"

fun data_of :: "json \<Rightarrow> dict option" where
  "data_of (JDict d) =
     (case dict_get d ''data'' (JDict []) of JDict status_data \<Rightarrow> Some status_data | _ \<Rightarrow> None)"
| "data_of _ = None"

text \<open>The status code of a response, \<open>None\<close> when the response has no place for one.\<close>

definition status_of :: "json \<Rightarrow> json option" where
  "status_of resp = map_option (\<lambda>status_data. dict_get status_data ''status'' JNull) (data_of resp)"

definition has_status :: "json \<Rightarrow> int \<Rightarrow> bool" where
  "has_status resp n = (case status_of resp of Some status \<Rightarrow> py_eq_int status n | None \<Rightarrow> False)"

text \<open>
  A response that the loop takes as a confirmed login: its \<^verbatim>\<open>state\<close> is true and its
  status code equals 2.
\<close>

definition confirmed :: "json \<Rightarrow> bool" where
  "confirmed resp = (truthy (state_of resp) \<and> has_status resp 2)"

fun is_confirmed_poll :: "event \<Rightarrow> bool" where
  "is_confirmed_poll (Remote (StatusReq p) (Inr resp)) = confirmed resp"
| "is_confirmed_poll _ = False"

text \<open>
  A response with a status code that the loop does not know: none of 0, 1, 2, -1, -2
  and -99.
\<close>

definition unknown_status :: "json \<Rightarrow> bool" where
  "unknown_status resp =
     (case status_of resp of
        None \<Rightarrow> False
      | Some status \<Rightarrow>
          \<not> (py_eq_int status 0 \<or> py_eq_int status 1 \<or> py_eq_int status 2 \<or>
             py_eq_int status (- 1) \<or> py_eq_int status (- 2) \<or> py_eq_int status (- 99)))"

fun is_status :: "event \<Rightarrow> bool" where
  "is_status (Status m) = True"
| "is_status _ = False"

text \<open>The events of a login that went through: the exchange, the cookies shown, the
  messages of success.\<close>

fun is_final :: "event \<Rightarrow> bool" where
  "is_final (Remote (ResultReq a u) r) = True"
| "is_final (Cookies c) = True"
| "is_final (Status MsgLoginSuccess) = True"
| "is_final (InfoBox m) = True"
| "is_final _ = False"

section \<open>Sample sessions\<close>

definition token_ok :: json where
  "token_ok =
     JDict [(''state'', JInt 1),
            (''data'', JDict [(''uid'', JStr ''U1''), (''time'', JInt 1700000000),
                             (''sign'', JStr ''abc''), (''qrcode'', JStr ''http://115.com/scan/U1'')])]"

definition payload_U1 :: dict where
  "payload_U1 = [(''uid'', JStr ''U1''), (''time'', JInt 1700000000), (''sign'', JStr ''abc'')]"

definition status_response :: "int \<Rightarrow> json" where
  "status_response n = JDict [(''state'', JInt 1), (''data'', JDict [(''status'', JInt n)])]"

definition cookies_ok :: json where
  "cookies_ok =
     JDict [(''state'', JInt 1), (''data'', JDict [(''cookie'', JDict [(''session'', JStr ''abc'')])])]"

definition cookies_empty :: json where
  "cookies_empty = JDict [(''state'', JInt 1), (''data'', JDict [(''cookie'', JDict [])])]"

text \<open>
  Scenario A of the specification: the token is issued, the first two polls report
  waiting, the third a confirmed login, and the exchange returns a cookie. Nobody
  presses stop.
\<close>

definition scenario_A :: env where
  "scenario_A =
     \<lparr> net_token = (\<lambda>q. Inr token_ok),
       net_image = (\<lambda>uid. Inr [137, 80, 78, 71]),
       net_status = (\<lambda>i q. Inr (status_response (if i < 2 then 0 else 2))),
       net_result = (\<lambda>q. Inr cookies_ok),
       image_opens = (\<lambda>data. True),
       monotonic0 = 0,
       latency = (\<lambda>i. 150),
       active_read = (\<lambda>i. True),
       is_set = (\<lambda>i c. False) \<rparr>"

definition gui0 :: gui where
  "gui0 = \<lparr> polling_active = False, selected_app_type_var = ''windows'',
            current_app_type = [], stop_event = False \<rparr>"

text \<open>A network on which the status endpoint times out for an empty payload and is
  unreachable for any other.\<close>

definition flaky :: urlopen where
  "flaky q =
     (case q of
        StatusReq p \<Rightarrow>
          (if p = [] then Inl (TimeoutError ''timed out'') else Inl (URLError ''unreachable''))
      | _ \<Rightarrow> Inr JNull)"

text \<open>A payload whose sign is the string of \<^verbatim>\<open>"\ud800"\<close>, a lone surrogate.\<close>

definition payload_surrogate :: dict where
  "payload_surrogate =
     [(''uid'', JStr ''U1''), (''time'', JInt 1700000000),
      (''sign'', JStr [char_of (237 :: nat), char_of (160 :: nat), char_of (128 :: nat)])]"

text \<open>
  The token is issued, the first poll meets an unreachable server, the second one
  reports an expired code.
\<close>

definition scenario_transient :: env where
  "scenario_transient =
     scenario_A\<lparr> net_status :=
       (\<lambda>i q. if i = 0 then Inl (URLError ''unreachable'') else Inr (status_response (- 1))) \<rparr>"

text \<open>The first poll reports a status code 7, the second one an expired code.\<close>

definition scenario_unknown :: env where
  "scenario_unknown =
     scenario_A\<lparr> net_status := (\<lambda>i q. Inr (status_response (if i = 0 then 7 else - 1))) \<rparr>"

text \<open>The image endpoint is unreachable.\<close>

definition scenario_image_down :: env where
  "scenario_image_down = scenario_A\<lparr> net_image := (\<lambda>uid. Inl (URLError ''unreachable'')) \<rparr>"

text \<open>The image is fetched, but its bytes are no image.\<close>

definition scenario_bad_image :: env where
  "scenario_bad_image =
     scenario_A\<lparr> image_opens := (\<lambda>data. False),
                 net_status := (\<lambda>i q. Inr (status_response (- 1))) \<rparr>"

text \<open>The first poll reports a confirmed login.\<close>

definition scenario_confirmed :: env where
  "scenario_confirmed = scenario_A\<lparr> net_status := (\<lambda>i q. Inr (status_response 2)) \<rparr>"

text \<open>Scenario E of the specification: the login is confirmed and the exchange
  returns no cookie.\<close>

definition scenario_E :: env where
  "scenario_E = scenario_confirmed\<lparr> net_result := (\<lambda>q. Inr cookies_empty) \<rparr>"

text \<open>The login is confirmed and the exchange endpoint is unreachable.\<close>

definition scenario_exchange_down :: env where
  "scenario_exchange_down =
     scenario_confirmed\<lparr> net_result := (\<lambda>q. Inl (URLError ''unreachable'')) \<rparr>"

definition gui_windows :: gui where
  "gui_windows = gui0\<lparr> current_app_type := ''windows'' \<rparr>"

definition gui_foo :: gui where
  "gui_foo = gui0\<lparr> selected_app_type_var := ''foo'' \<rparr>"

text \<open>
  Lines 348-358 seen from the call of line 347: what the worker does once the
  exchange request has met \<open>r\<close>.
\<close>

definition after_exchange :: "string \<Rightarrow> transport_error + json \<Rightarrow> event list \<times> flow" where
  "after_exchange selected_app r =
     (case r of
        Inl err \<Rightarrow> ([], Raise (wrap_error err))
      | Inr login_result \<Rightarrow> finish_login selected_app login_result)"

text \<open>How the loop ends when its last pass ends in \<open>fl\<close>.\<close>

fun raised :: "flow \<Rightarrow> exc option" where
  "raised (Raise ex) = Some ex"
| "raised _ = None"

text \<open>
  A list of remote calls in which an exchange comes only last and only right after a
  poll that was answered with a confirmed login.
\<close>

fun exchange_last :: "event list \<Rightarrow> bool" where
  "exchange_last [] = True"
| "exchange_last [c] = (\<not> is_exchange c)"
| "exchange_last (c # c' # cs) =
     (\<not> is_exchange c \<and>
      (if is_exchange c' then cs = [] \<and> is_confirmed_poll c else exchange_last (c' # cs)))"

text \<open>
  What line 349 reads in the result of the exchange:
  \<^verbatim>\<open>login_result.get("data", {}).get("cookie", {})\<close>, when the data is a dictionary.
\<close>

fun cookies_of :: "json \<Rightarrow> json option" where
  "cookies_of (JDict d) =
     (case dict_get d ''data'' (JDict []) of
        JDict dd \<Rightarrow> Some (dict_get dd ''cookie'' (JDict []))
      | _ \<Rightarrow> None)"
| "cookies_of _ = None"


text \<open>Stop is pressed once, before the worker first tests the condition of its loop.\<close>

definition stop_at_once :: schedule where
  "stop_at_once i c = (if i = 0 \<and> c = AtLoopHead then [PressStop] else [])"

text \<open>Stop is pressed and then a new login is started, both before the worker first
  tests the condition of its loop.\<close>

definition stop_then_restart :: schedule where
  "stop_then_restart i c = (if i = 0 \<and> c = AtLoopHead then [PressStop, PressStart] else [])"

text \<open>Scenario D of the specification: stop is pressed once the token is there,
  before the loop begins.\<close>

definition scenario_D :: env where
  "scenario_D = interleave stop_at_once gui_windows scenario_A"

text \<open>Scenario B of the specification: the first poll reports an expired code.\<close>

definition scenario_B :: env where
  "scenario_B = scenario_A\<lparr> net_status := (\<lambda>i q. Inr (status_response (- 1))) \<rparr>"

section \<open>Unfolding the model\<close>

lemmas run_defs =
  start_login_process_def login_thread_func_def set_ui_state_def login_body_def
  get_qrcode_token_def check_token_def dict_get_def dict_pop_def get_qrcode_def
  display_qr_code_def show_error_def loop_body_def get_qrcode_status_def
  handle_status_def dispatch_def timeout_seconds_def confirm_login_def
  post_qrcode_result_def get_enum_name_def by_name_def by_value_def members_def
  finish_login_def display_cookies_def after_loop_def err_msg_def
  waiting_response_def network_error_response_def remote_calls_def unencodable_def
  stop_polling_def start_again_def ui_steps_def at_sleep_def at_poll_def at_exit_def
  worker_start_def interleave_def

lemmas sample_defs =
  scenario_A_def scenario_transient_def scenario_unknown_def scenario_D_def
  scenario_image_down_def scenario_bad_image_def scenario_confirmed_def scenario_E_def
  scenario_exchange_down_def gui0_def gui_windows_def gui_foo_def token_ok_def
  payload_U1_def payload_surrogate_def status_response_def cookies_ok_def
  cookies_empty_def stop_at_once_def stop_then_restart_def scenario_B_def

text \<open>One iteration of the loop, by the way its body ends.\<close>

lemma poll_loop_exit:
  "\<not> active_read e i \<or> is_set e i AtLoopHead \<Longrightarrow>
   poll_loop e payload uid app start now i = (after_loop e i, None)"
  by (subst poll_loop.simps) auto

lemma poll_loop_timeout:
  "active_read e i \<Longrightarrow> \<not> is_set e i AtLoopHead \<Longrightarrow> now - start > 180000 \<Longrightarrow>
   poll_loop e payload uid app start now i = ([], Some (RuntimeError ScanTimeout))"
  by (subst poll_loop.simps) (simp add: timeout_seconds_def)

lemma poll_loop_continue:
  "active_read e i \<Longrightarrow> \<not> is_set e i AtLoopHead \<Longrightarrow> now - start \<le> 180000 \<Longrightarrow>
   snd (loop_body e payload uid app i) = Continue \<Longrightarrow>
   poll_loop e payload uid app start now i =
     (fst (loop_body e payload uid app i) @
        fst (poll_loop e payload uid app start
              (now + 1000 * int (slept (fst (loop_body e payload uid app i))) + int (latency e i))
              (Suc i)),
      snd (poll_loop e payload uid app start
              (now + 1000 * int (slept (fst (loop_body e payload uid app i))) + int (latency e i))
              (Suc i)))"
  by (subst poll_loop.simps) (simp add: timeout_seconds_def Let_def)

lemma poll_loop_break:
  "active_read e i \<Longrightarrow> \<not> is_set e i AtLoopHead \<Longrightarrow> now - start \<le> 180000 \<Longrightarrow>
   snd (loop_body e payload uid app i) = Break \<Longrightarrow>
   poll_loop e payload uid app start now i =
     (fst (loop_body e payload uid app i) @ after_loop e i, None)"
  by (subst poll_loop.simps) (simp add: timeout_seconds_def)

lemma poll_loop_raise:
  "active_read e i \<Longrightarrow> \<not> is_set e i AtLoopHead \<Longrightarrow> now - start \<le> 180000 \<Longrightarrow>
   snd (loop_body e payload uid app i) = Raise ex \<Longrightarrow>
   poll_loop e payload uid app start now i = (fst (loop_body e payload uid app i), Some ex)"
  by (subst poll_loop.simps) (simp add: timeout_seconds_def)

text \<open>The poll itself.\<close>

lemma urlencode_dict: "urlencode (JDict d) = Inr query \<Longrightarrow> query = d \<and> \<not> unencodable d"
  by (simp split: if_splits)

lemma get_qrcode_status_raises:
  "urlencode payload = Inl ex \<Longrightarrow> get_qrcode_status net payload = ([], Inl ex)"
  by (simp add: get_qrcode_status_def)

lemma get_qrcode_status_returns:
  "urlencode payload = Inr query \<Longrightarrow> \<exists>resp. snd (get_qrcode_status net payload) = Inr resp"
  by (simp add: get_qrcode_status_def Let_def split: sum.split transport_error.split)

lemma get_qrcode_status_passes:
  "urlencode payload = Inr query \<Longrightarrow> net (StatusReq query) = Inr resp \<Longrightarrow>
   get_qrcode_status net payload = ([Remote (StatusReq query) (Inr resp)], Inr resp)"
  by (simp add: get_qrcode_status_def)

lemma get_qrcode_status_transient:
  "urlencode payload = Inr query \<Longrightarrow> net (StatusReq query) = Inl err \<Longrightarrow>
   \<forall>s. err \<noteq> TimeoutError s \<Longrightarrow>
   get_qrcode_status net payload =
     ([Remote (StatusReq query) (Inl err), Print (WarnStatus err)],
      Inr (network_error_response (str_of err)))"
  by (cases err) (simp_all add: get_qrcode_status_def)

text \<open>The session up to the loop.\<close>

lemma remote_calls_after_loop: "remote_calls (after_loop e i) = []"
  by (simp add: remote_calls_def after_loop_def)


lemma login_body_polling:
  assumes "net_token e TokenReq = Inr token_resp"
    and "check_token token_resp = Inr (payload, uid)"
    and "net_image e uid = Inr image_data"
  shows "login_body e app =
           ([Status MsgGetToken, Remote TokenReq (Inr token_resp), Status MsgDownloadQR,
             ImageFetch uid (Inr image_data)] @ display_qr_code e image_data @
            Status MsgWaitingScan #
            fst (poll_loop e payload uid app (monotonic0 e) (monotonic0 e) 0),
            snd (poll_loop e payload uid app (monotonic0 e) (monotonic0 e) 0))"
  using assms by (simp add: login_body_def get_qrcode_token_def get_qrcode_def Let_def)

lemma check_token_ok: "check_token token_ok = Inr (payload_U1, JStr ''U1'')"
  by (simp add: check_token_def token_ok_def dict_get_def dict_pop_def payload_U1_def)

section \<open>The status poll\<close>

lemma waiting_response_reads:
  "state_of waiting_response = JBool True" "status_of waiting_response = Some (JInt 0)"
  by (simp_all add: waiting_response_def status_of_def dict_get_def)

lemma network_error_response_reads:
  "state_of (network_error_response s) = JBool False"
  "status_of (network_error_response s) = Some (JInt (- 99))"
  by (simp_all add: network_error_response_def status_of_def dict_get_def)

lemma payload_surrogate_unencodable: "urlencode (JDict payload_surrogate) = Inl UnicodeEncodeError"
  by (simp add: payload_surrogate_def unencodable_def)

lemma payload_U1_encodable: "urlencode (JDict payload_U1) = Inr payload_U1"
  by (simp add: payload_U1_def unencodable_def)

text \<open>
  Claim C1 says that \<^verbatim>\<open>get_qrcode_status\<close> never raises, for every payload. The
  source builds the query string with \<^verbatim>\<open>urlencode(payload)\<close> at line 72, before the
  \<^verbatim>\<open>try\<close> of line 73, so what \<^verbatim>\<open>urlencode\<close> raises reaches the caller: for the
  payload of a token whose sign is the string \<^verbatim>\<open>"\ud800"\<close> it is
  \<^verbatim>\<open>UnicodeEncodeError\<close>, for the payload \<^verbatim>\<open>None\<close> it is \<^verbatim>\<open>TypeError\<close>, and in both
  cases no request is made.
\<close>

theorem get_qrcode_status_raises_of_urlencode:
  "get_qrcode_status flaky (JDict payload_surrogate) = ([], Inl UnicodeEncodeError) \<and>
   get_qrcode_status flaky JNull = ([], Inl TypeError)"
  using get_qrcode_status_raises [OF payload_surrogate_unencodable, of flaky]
  by (simp add: get_qrcode_status_def)

text \<open>
  Claim C1, amended. For every payload from which the query string can be built (a
  mapping whose keys and string values can be encoded as UTF-8 is one) and every
  behaviour of the network, \<^verbatim>\<open>get_qrcode_status\<close> returns a response and does not
  raise: what the server answered when the request went through; on a timeout
  (\<^verbatim>\<open>TimeoutError\<close>) the waiting response, whose state is true and whose status is 0;
  on any other error of the transport or the server the response whose state is
  false and whose status is -99. For a payload on which \<^verbatim>\<open>urlencode\<close> raises, the
  function raises that exception and makes no request.
\<close>

theorem get_qrcode_status_raises_only_of_urlencode:
  "(\<forall>ex. urlencode payload = Inl ex \<longrightarrow> get_qrcode_status net payload = ([], Inl ex)) \<and>
   (\<forall>query. urlencode payload = Inr query \<longrightarrow>
      (\<exists>resp. snd (get_qrcode_status net payload) = Inr resp) \<and>
      (\<forall>resp. net (StatusReq query) = Inr resp \<longrightarrow>
         snd (get_qrcode_status net payload) = Inr resp) \<and>
      (\<forall>s. net (StatusReq query) = Inl (TimeoutError s) \<longrightarrow>
         snd (get_qrcode_status net payload) = Inr waiting_response) \<and>
      (\<forall>err. net (StatusReq query) = Inl err \<and> (\<forall>s. err \<noteq> TimeoutError s) \<longrightarrow>
         snd (get_qrcode_status net payload) = Inr (network_error_response (str_of err)))) \<and>
   (\<forall>d. \<not> unencodable d \<longrightarrow> urlencode (JDict d) = Inr d) \<and>
   state_of waiting_response = JBool True \<and>
   status_of waiting_response = Some (JInt 0) \<and>
   (\<forall>s. state_of (network_error_response s) = JBool False \<and>
        status_of (network_error_response s) = Some (JInt (- 99)))"
proof -
  have raising: "\<forall>ex. urlencode payload = Inl ex \<longrightarrow>
      get_qrcode_status net payload = ([], Inl ex)"
    by (simp add: get_qrcode_status_raises)
  have built: "(\<exists>resp. snd (get_qrcode_status net payload) = Inr resp) \<and>
      (\<forall>resp. net (StatusReq query) = Inr resp \<longrightarrow>
         snd (get_qrcode_status net payload) = Inr resp) \<and>
      (\<forall>s. net (StatusReq query) = Inl (TimeoutError s) \<longrightarrow>
         snd (get_qrcode_status net payload) = Inr waiting_response) \<and>
      (\<forall>err. net (StatusReq query) = Inl err \<and> (\<forall>s. err \<noteq> TimeoutError s) \<longrightarrow>
         snd (get_qrcode_status net payload) = Inr (network_error_response (str_of err)))"
    if query: "urlencode payload = Inr query" for query
  proof (intro conjI allI impI)
    show "\<exists>resp. snd (get_qrcode_status net payload) = Inr resp"
      using query by (rule get_qrcode_status_returns)
    show "snd (get_qrcode_status net payload) = Inr resp"
      if "net (StatusReq query) = Inr resp" for resp
      using query that by (simp add: get_qrcode_status_def)
    show "snd (get_qrcode_status net payload) = Inr waiting_response"
      if "net (StatusReq query) = Inl (TimeoutError s)" for s
      using query that by (simp add: get_qrcode_status_def)
    show "snd (get_qrcode_status net payload) = Inr (network_error_response (str_of err))"
      if "net (StatusReq query) = Inl err \<and> (\<forall>s. err \<noteq> TimeoutError s)" for err
      using get_qrcode_status_transient [of payload query net err] query that by simp
  qed
  have mapping: "\<forall>d. \<not> unencodable d \<longrightarrow> urlencode (JDict d) = Inr d"
    by simp
  from raising built mapping show ?thesis
    by (simp only: waiting_response_reads network_error_response_reads simp_thms) blast
qed

theorem get_qrcode_status_raises_only_of_urlencode_witness:
  "snd (get_qrcode_status flaky (JDict [])) = Inr waiting_response \<and>
   snd (get_qrcode_status flaky (JDict payload_U1)) =
     Inr (network_error_response ''unreachable'') \<and>
   get_qrcode_status flaky (JDict payload_surrogate) = ([], Inl UnicodeEncodeError)"
proof -
  have empty: "urlencode (JDict []) = Inr []"
    by (simp add: unencodable_def)
  have net: "flaky (StatusReq []) = Inl (TimeoutError ''timed out'')"
    "flaky (StatusReq payload_U1) = Inl (URLError ''unreachable'')"
    by (simp_all add: flaky_def payload_U1_def)
  from get_qrcode_status_raises_only_of_urlencode [of "JDict []" flaky] empty net(1)
  have "snd (get_qrcode_status flaky (JDict [])) = Inr waiting_response"
    by blast
  moreover
  from get_qrcode_status_raises_only_of_urlencode [of "JDict payload_U1" flaky]
    payload_U1_encodable net(2)
  have "snd (get_qrcode_status flaky (JDict payload_U1)) =
     Inr (network_error_response (str_of (URLError ''unreachable'')))"
    by blast
  moreover
  from get_qrcode_status_raises_only_of_urlencode [of "JDict payload_surrogate" flaky]
    payload_surrogate_unencodable
  have "get_qrcode_status flaky (JDict payload_surrogate) = ([], Inl UnicodeEncodeError)"
    by blast
  ultimately show ?thesis by simp
qed

section \<open>The code image\<close>

text \<open>
  Claim C2 says that the session goes on to the polling phase when the fetch of the
  code image fails. In the source \<^verbatim>\<open>get_qrcode\<close> raises on a failed fetch (lines 124
  and 126) and the worker calls it inside its one \<^verbatim>\<open>try\<close> block (line 302): with the
  token issued and the image endpoint unreachable, the worker shows the error and
  ends; it never polls.
\<close>

theorem image_fetch_failure_aborts:
  "net_token scenario_image_down TokenReq = Inr token_ok \<and>
   check_token token_ok = Inr (payload_U1, JStr ''U1'') \<and>
   fst (login_thread_func scenario_image_down gui_windows) =
     [Status MsgGetToken, Remote TokenReq (Inr token_ok), Status MsgDownloadQR,
      ImageFetch (JStr ''U1'') (Inl (URLError ''unreachable'')),
      ErrorBox (ErrLogin (ConnectionError (URLError ''unreachable''))),
      Status (MsgError (ErrLogin (ConnectionError (URLError ''unreachable'')))),
      SetUiState ''finished''] \<and>
   filter is_poll (fst (login_thread_func scenario_image_down gui_windows)) = []"
  by (simp add: check_token_ok)
    (simp add: run_defs sample_defs)

text \<open>
  Claim C2, amended. In a session whose token is issued: when the image is fetched
  but cannot be shown (\<^verbatim>\<open>display_qr_code\<close>, lines 228-231), the failure is shown as an
  error and the worker goes on to the polling loop; when the fetch itself fails, the
  exception of \<^verbatim>\<open>get_qrcode\<close> leaves the \<^verbatim>\<open>try\<close> block before any poll and the
  session ends with that error.
\<close>

theorem image_display_failure_not_fatal:
  assumes "net_token e TokenReq = Inr token_resp"
    and "check_token token_resp = Inr (payload, uid)"
  shows "(\<forall>image_data. net_image e uid = Inr image_data \<and> \<not> image_opens e image_data \<longrightarrow>
            login_body e app =
              ([Status MsgGetToken, Remote TokenReq (Inr token_resp), Status MsgDownloadQR,
                ImageFetch uid (Inr image_data), ErrorBox ErrShowQR,
                Status (MsgError ErrShowQR), QRPlaceholder, Status MsgWaitingScan] @
               fst (poll_loop e payload uid app (monotonic0 e) (monotonic0 e) 0),
               snd (poll_loop e payload uid app (monotonic0 e) (monotonic0 e) 0))) \<and>
         (\<forall>err. net_image e uid = Inl err \<longrightarrow>
            login_body e app =
              ([Status MsgGetToken, Remote TokenReq (Inr token_resp), Status MsgDownloadQR,
                ImageFetch uid (Inl err)], Some (wrap_error err)) \<and>
            fst (login_thread_func e g) =
              [Status MsgGetToken, Remote TokenReq (Inr token_resp), Status MsgDownloadQR,
               ImageFetch uid (Inl err), ErrorBox (ErrLogin (wrap_error err)),
               Status (MsgError (ErrLogin (wrap_error err))), SetUiState ''finished''])"
proof (intro conjI allI impI)
  fix image_data
  assume "net_image e uid = Inr image_data \<and> \<not> image_opens e image_data"
  then show "login_body e app =
              ([Status MsgGetToken, Remote TokenReq (Inr token_resp), Status MsgDownloadQR,
                ImageFetch uid (Inr image_data), ErrorBox ErrShowQR,
                Status (MsgError ErrShowQR), QRPlaceholder, Status MsgWaitingScan] @
               fst (poll_loop e payload uid app (monotonic0 e) (monotonic0 e) 0),
               snd (poll_loop e payload uid app (monotonic0 e) (monotonic0 e) 0))"
    using login_body_polling [OF assms, of image_data app]
    by (simp add: display_qr_code_def show_error_def)
next
  fix err
  assume err: "net_image e uid = Inl err"
  with assms show body: "login_body e app' =
              ([Status MsgGetToken, Remote TokenReq (Inr token_resp), Status MsgDownloadQR,
                ImageFetch uid (Inl err)], Some (wrap_error err))" for app'
    by (simp add: login_body_def get_qrcode_token_def get_qrcode_def)
  show "fst (login_thread_func e g) =
              [Status MsgGetToken, Remote TokenReq (Inr token_resp), Status MsgDownloadQR,
               ImageFetch uid (Inl err), ErrorBox (ErrLogin (wrap_error err)),
               Status (MsgError (ErrLogin (wrap_error err))), SetUiState ''finished'']"
    by (simp add: login_thread_func_def Let_def body show_error_def)
qed

theorem image_display_failure_not_fatal_witness:
  "login_body scenario_bad_image ''windows'' =
     ([Status MsgGetToken, Remote TokenReq (Inr token_ok), Status MsgDownloadQR,
       ImageFetch (JStr ''U1'') (Inr [137, 80, 78, 71]), ErrorBox ErrShowQR,
       Status (MsgError ErrShowQR), QRPlaceholder, Status MsgWaitingScan] @
      fst (poll_loop scenario_bad_image payload_U1 (JStr ''U1'') ''windows'' 0 0 0),
      snd (poll_loop scenario_bad_image payload_U1 (JStr ''U1'') ''windows'' 0 0 0)) \<and>
   login_body scenario_image_down ''windows'' =
     ([Status MsgGetToken, Remote TokenReq (Inr token_ok), Status MsgDownloadQR,
       ImageFetch (JStr ''U1'') (Inl (URLError ''unreachable''))],
      Some (ConnectionError (URLError ''unreachable'')))"
proof -
  have bad: "net_token scenario_bad_image TokenReq = Inr token_ok"
    "net_image scenario_bad_image (JStr ''U1'') = Inr [137, 80, 78, 71]"
    "\<not> image_opens scenario_bad_image [137, 80, 78, 71]"
    "monotonic0 scenario_bad_image = 0"
    by (simp_all add: scenario_bad_image_def scenario_A_def)
  have down: "net_token scenario_image_down TokenReq = Inr token_ok"
    "net_image scenario_image_down (JStr ''U1'') = Inl (URLError ''unreachable'')"
    by (simp_all add: scenario_image_down_def scenario_A_def)
  from image_display_failure_not_fatal [OF bad(1) check_token_ok, of "''windows''"]
    image_display_failure_not_fatal [OF down(1) check_token_ok, of "''windows''"]
    bad down
  show ?thesis by simp
qed

section \<open>The exchange within a run\<close>

lemma finish_login_cases:
  "(\<exists>c. finish_login app lr =
          ([Cookies c, Status MsgLoginSuccess, InfoBox (InfoSuccess app)], Break)) \<or>
   (\<exists>ex. finish_login app lr = ([], Raise ex))"
  by (auto simp: finish_login_def display_cookies_def Let_def split: json.splits)

lemma after_exchange_cases:
  "(\<exists>c. after_exchange app r =
          ([Cookies c, Status MsgLoginSuccess, InfoBox (InfoSuccess app)], Break)) \<or>
   (\<exists>ex. after_exchange app r = ([], Raise ex))"
  using finish_login_cases [of app]
  by (cases r) (simp_all add: after_exchange_def)

lemma confirm_login_eq:
  "confirm_login net uid app =
     (case get_enum_name (Val (JStr app)) of
        Inl x \<Rightarrow> ([Status MsgConfirmed], Raise (ValueError (InvalidApp (Val (JStr app)))))
      | Inr n \<Rightarrow>
          (Status MsgConfirmed # Remote (ResultReq n uid) (net (ResultReq n uid)) #
             fst (after_exchange app (net (ResultReq n uid))),
           snd (after_exchange app (net (ResultReq n uid)))))"
  by (simp add: confirm_login_def post_qrcode_result_def after_exchange_def Let_def
      split: sum.split)

lemma handle_status_confirmed:
  assumes "confirmed resp"
  shows "handle_status net uid app resp = confirm_login net uid app"
proof -
  from assms obtain d where resp: "resp = JDict d"
    by (cases resp) (simp_all add: confirmed_def)
  from assms resp obtain status_data where
    data: "dict_get d ''data'' (JDict []) = JDict status_data"
    and two: "py_eq_int (dict_get status_data ''status'' JNull) 2"
    by (auto simp: confirmed_def has_status_def status_of_def split: json.splits)
  from two have "\<not> py_eq_int (dict_get status_data ''status'' JNull) 0"
    "\<not> py_eq_int (dict_get status_data ''status'' JNull) 1"
    by (cases "dict_get status_data ''status'' JNull"; simp split: if_splits)+
  with two have "dispatch net uid app resp status_data = confirm_login net uid app"
    by (simp add: dispatch_def Let_def)
  moreover from assms resp have "truthy (dict_get d ''state'' JNull)" "d \<noteq> []"
    by (auto simp: confirmed_def dict_get_def)
  ultimately show ?thesis
    by (simp add: handle_status_def resp data)
qed

lemma dispatch_not_confirmed:
  assumes "\<not> py_eq_int (dict_get status_data ''status'' JNull) 2"
  shows "filter is_final (fst (dispatch net uid app resp status_data)) = []"
  using assms by (simp add: dispatch_def Let_def split: sum.split)

lemma handle_status_not_confirmed:
  assumes "\<not> confirmed resp"
  shows "filter is_final (fst (handle_status net uid app resp)) = []"
proof (cases resp)
  case (JDict d)
  show ?thesis
  proof (cases "d \<noteq> [] \<and> truthy (dict_get d ''state'' JNull)")
    case True
    show ?thesis
    proof (cases "dict_get d ''data'' (JDict [])")
      case (JDict status_data)
      with assms True \<open>resp = JDict d\<close>
      have "\<not> py_eq_int (dict_get status_data ''status'' JNull) 2"
        by (simp add: confirmed_def has_status_def status_of_def)
      then show ?thesis
        using True JDict \<open>resp = JDict d\<close>
        by (simp add: handle_status_def dispatch_not_confirmed)
    qed (use True \<open>resp = JDict d\<close> in \<open>simp_all add: handle_status_def\<close>)
  next
    case False
    then show ?thesis
      using \<open>resp = JDict d\<close> by (auto simp: handle_status_def)
  qed
qed (simp_all add: handle_status_def)

lemma get_qrcode_status_confirmed:
  assumes "snd (get_qrcode_status net (JDict payload)) = Inr resp" and "confirmed resp"
  shows "get_qrcode_status net (JDict payload) =
           ([Remote (StatusReq payload) (Inr resp)], Inr resp) \<and>
         net (StatusReq payload) = Inr resp"
proof (cases "urlencode (JDict payload)")
  case (Inl ex)
  with assms(1) show ?thesis by (simp add: get_qrcode_status_def)
next
  case (Inr query)
  then have query: "urlencode (JDict payload) = Inr payload"
    by (simp split: if_splits)
  show ?thesis
  proof (cases "net (StatusReq payload)")
    case (Inr answer)
    with assms(1) query show ?thesis by (simp add: get_qrcode_status_def)
  next
    case (Inl err)
    have "\<not> confirmed waiting_response" "\<not> confirmed (network_error_response s)" for s
      by (simp_all add: confirmed_def has_status_def status_of_def waiting_response_def
          network_error_response_def dict_get_def)
    with assms Inl query show ?thesis
      by (cases err) (auto simp: get_qrcode_status_def)
  qed
qed

lemma get_qrcode_status_events:
  "filter is_final (fst (get_qrcode_status net payload)) = [] \<and>
   remote_calls (fst (get_qrcode_status net payload)) =
     (case urlencode payload of
        Inl ex \<Rightarrow> []
      | Inr query \<Rightarrow> [Remote (StatusReq query) (net (StatusReq query))])"
  by (simp add: get_qrcode_status_def Let_def remote_calls_def
      split: sum.split transport_error.split)

text \<open>The body of the loop, by the way it ends.\<close>

lemma loop_body_shape:
  "loop_body e payload uid app i = ([Sleep 2], Break) \<or>
   (\<exists>ex. urlencode (JDict payload) = Inl ex \<and>
      loop_body e payload uid app i =
        ([Sleep 2, Status (MsgPollError ex), Sleep 3], Continue)) \<or>
   loop_body e payload uid app i =
     (Sleep 2 # fst (get_qrcode_status (net_status e i) (JDict payload)), Break) \<or>
   (\<exists>resp. snd (get_qrcode_status (net_status e i) (JDict payload)) = Inr resp \<and>
      loop_body e payload uid app i =
        (Sleep 2 # fst (get_qrcode_status (net_status e i) (JDict payload)) @
           fst (handle_status (net_result e) uid app resp),
         snd (handle_status (net_result e) uid app resp)))"
proof (cases "urlencode (JDict payload)")
  case (Inl ex)
  then show ?thesis
    by (simp add: loop_body_def get_qrcode_status_raises)
next
  case (Inr query)
  from get_qrcode_status_returns [OF this, of "net_status e i"] show ?thesis
    by (auto simp: loop_body_def split: prod.split sum.split)
qed

lemma after_exchange_flow: "snd (after_exchange app r) \<noteq> Continue"
  using after_exchange_cases [of app r] by auto

lemma after_exchange_no_remote: "Remote q r' \<notin> set (fst (after_exchange app r))"
  using after_exchange_cases [of app r] by auto

lemma confirm_login_flow: "snd (confirm_login net uid app) \<noteq> Continue"
  by (simp add: confirm_login_eq after_exchange_flow split: sum.split)

lemma loop_body_continue_no_final:
  assumes "snd (loop_body e payload uid app i) = Continue"
  shows "filter is_final (fst (loop_body e payload uid app i)) = []"
proof -
  from loop_body_shape [of e payload uid app i] assms
  consider (raised) ex where "loop_body e payload uid app i =
        ([Sleep 2, Status (MsgPollError ex), Sleep 3], Continue)"
    | (handled) resp where "snd (get_qrcode_status (net_status e i) (JDict payload)) = Inr resp"
        "loop_body e payload uid app i =
          (Sleep 2 # fst (get_qrcode_status (net_status e i) (JDict payload)) @
             fst (handle_status (net_result e) uid app resp),
           snd (handle_status (net_result e) uid app resp))"
    by auto
  then show ?thesis
  proof cases
    case raised
    then show ?thesis by simp
  next
    case handled
    have "\<not> confirmed resp"
    proof
      assume "confirmed resp"
      then have "handle_status (net_result e) uid app resp =
          confirm_login (net_result e) uid app"
        by (rule handle_status_confirmed)
      with assms handled(2) confirm_login_flow [of "net_result e" uid app] show False
        by simp
    qed
    then have "filter is_final (fst (handle_status (net_result e) uid app resp)) = []"
      by (rule handle_status_not_confirmed)
    with handled(2) get_qrcode_status_events [of "net_status e i" "JDict payload"]
    show ?thesis by simp
  qed
qed

text \<open>
  An exchange in the body of the loop: the app was resolved, the poll of this
  iteration was answered with a confirmed login, and the body ends as the exchange
  decides.
\<close>

lemma loop_body_exchange:
  assumes "Remote (ResultReq n u) r \<in> set (fst (loop_body e payload uid app i))"
  shows "get_enum_name (Val (JStr app)) = Inr n \<and> u = uid \<and>
         r = net_result e (ResultReq n uid) \<and>
         (\<exists>resp. confirmed resp \<and> net_status e i (StatusReq payload) = Inr resp \<and>
            fst (loop_body e payload uid app i) =
              [Sleep 2, Remote (StatusReq payload) (Inr resp), Status MsgConfirmed,
               Remote (ResultReq n uid) r] @ fst (after_exchange app r)) \<and>
         snd (loop_body e payload uid app i) = snd (after_exchange app r)"
proof -
  have poll: "Remote (ResultReq n u) r \<notin>
      set (fst (get_qrcode_status (net_status e i) (JDict payload)))"
    by (simp add: get_qrcode_status_def Let_def split: sum.split transport_error.split)
  with loop_body_shape [of e payload uid app i] assms
  obtain resp where resp: "snd (get_qrcode_status (net_status e i) (JDict payload)) = Inr resp"
    and body: "loop_body e payload uid app i =
        (Sleep 2 # fst (get_qrcode_status (net_status e i) (JDict payload)) @
           fst (handle_status (net_result e) uid app resp),
         snd (handle_status (net_result e) uid app resp))"
    by auto
  from assms body poll
  have handled: "Remote (ResultReq n u) r \<in> set (fst (handle_status (net_result e) uid app resp))"
    by simp
  have conf: "confirmed resp"
  proof (rule ccontr)
    assume "\<not> confirmed resp"
    then have "filter is_final (fst (handle_status (net_result e) uid app resp)) = []"
      by (rule handle_status_not_confirmed)
    with handled show False
      by (auto simp: filter_empty_conv)
  qed
  then have hs: "handle_status (net_result e) uid app resp = confirm_login (net_result e) uid app"
    by (rule handle_status_confirmed)
  from get_qrcode_status_confirmed [OF resp conf]
  have status: "get_qrcode_status (net_status e i) (JDict payload) =
      ([Remote (StatusReq payload) (Inr resp)], Inr resp)"
    and answered: "net_status e i (StatusReq payload) = Inr resp"
    by simp_all
  show ?thesis
  proof (cases "get_enum_name (Val (JStr app))")
    case (Inl x)
    with handled hs show ?thesis by (simp add: confirm_login_eq)
  next
    case (Inr n')
    with handled hs after_exchange_no_remote [of "ResultReq n u" r app "net_result e (ResultReq n' uid)"]
    have "n = n'" "u = uid" "r = net_result e (ResultReq n' uid)"
      by (auto simp: confirm_login_eq)
    with Inr body hs status conf answered show ?thesis
      by (simp add: confirm_login_eq)
  qed
qed

lemma exchange_is_final: "is_final (Remote (ResultReq n u) r)"
  by simp

text \<open>The same in the loop: an exchange is the last thing the loop does.\<close>

lemma poll_loop_exchange:
  "Remote (ResultReq n u) r \<in> set (fst (poll_loop e payload uid app start now i)) \<Longrightarrow>
   get_enum_name (Val (JStr app)) = Inr n \<and> u = uid \<and> r = net_result e (ResultReq n uid) \<and>
   filter is_final (fst (poll_loop e payload uid app start now i)) =
     Remote (ResultReq n uid) r # filter is_final (fst (after_exchange app r)) \<and>
   snd (poll_loop e payload uid app start now i) = raised (snd (after_exchange app r))"
proof (induction e payload uid app start now i rule: poll_loop.induct)
  case (1 e payload uid app start now i)
  let ?body = "loop_body e payload uid app i"
  let ?ev = "Remote (ResultReq n u) r"
  have no_after: "?ev \<notin> set (after_loop e i)" "filter is_final (after_loop e i) = []"
    by (simp_all add: after_loop_def)
  show ?case
  proof (cases "\<not> active_read e i \<or> is_set e i AtLoopHead")
    case True
    with "1.prems" no_after show ?thesis by (simp add: poll_loop_exit)
  next
    case head: False
    show ?thesis
    proof (cases "now - start > 180000")
      case True
      with head "1.prems" show ?thesis by (simp add: poll_loop_timeout)
    next
      case False
      then have time: "now - start \<le> 180000" "\<not> timeout_seconds * 1000 < now - start"
        by (simp_all add: timeout_seconds_def)
      from head have act: "active_read e i" "\<not> is_set e i AtLoopHead" "active_read e i \<and> \<not> is_set e i AtLoopHead"
        by simp_all
      show ?thesis
      proof (cases "snd ?body")
        case Continue
        note unfold = poll_loop_continue [OF act(1,2) time(1) Continue]
        have quiet: "filter is_final (fst ?body) = []"
          using Continue by (rule loop_body_continue_no_final)
        then have "?ev \<notin> set (fst ?body)"
          by (auto simp: filter_empty_conv)
        with "1.prems" unfold
        have "?ev \<in> set (fst (poll_loop e payload uid app start
                (now + 1000 * int (slept (fst ?body)) + int (latency e i)) (Suc i)))"
          by simp
        from "1.IH" [OF _ time(2) Continue refl this] head
        show ?thesis
          by (simp add: unfold quiet)
      next
        case Break
        note unfold = poll_loop_break [OF act(1,2) time(1) Break]
        from "1.prems" unfold no_after have "?ev \<in> set (fst ?body)" by simp
        note found = loop_body_exchange [OF this]
        from found Break have "snd (after_exchange app r) = Break"
          by metis
        with found no_after show ?thesis
          by (auto simp: unfold)
      next
        case (Raise ex)
        note unfold = poll_loop_raise [OF act(1,2) time(1) Raise]
        from "1.prems" unfold have "?ev \<in> set (fst ?body)" by simp
        note found = loop_body_exchange [OF this]
        from found Raise have "snd (after_exchange app r) = Raise ex"
          by metis
        with found show ?thesis
          by (auto simp: unfold)
      qed
    qed
  qed
qed
text \<open>The remote calls of the loop.\<close>

lemma dispatch_not_confirmed_calls:
  assumes "\<not> py_eq_int (dict_get status_data ''status'' JNull) 2"
  shows "remote_calls (fst (dispatch net uid app resp status_data)) = []"
  using assms by (simp add: dispatch_def Let_def remote_calls_def split: sum.split)

lemma handle_status_not_confirmed_calls:
  assumes "\<not> confirmed resp"
  shows "remote_calls (fst (handle_status net uid app resp)) = []"
proof (cases resp)
  case (JDict d)
  show ?thesis
  proof (cases "d \<noteq> [] \<and> truthy (dict_get d ''state'' JNull)")
    case True
    show ?thesis
    proof (cases "dict_get d ''data'' (JDict [])")
      case (JDict status_data)
      with assms True \<open>resp = JDict d\<close>
      have "\<not> py_eq_int (dict_get status_data ''status'' JNull) 2"
        by (simp add: confirmed_def has_status_def status_of_def)
      then show ?thesis
        using True JDict \<open>resp = JDict d\<close>
        by (simp add: handle_status_def dispatch_not_confirmed_calls)
    qed (use True \<open>resp = JDict d\<close> in \<open>simp_all add: handle_status_def remote_calls_def\<close>)
  next
    case False
    then show ?thesis
      using \<open>resp = JDict d\<close> by (auto simp: handle_status_def remote_calls_def)
  qed
qed (simp_all add: handle_status_def remote_calls_def)

lemma after_exchange_calls: "remote_calls (fst (after_exchange app r)) = []"
  using after_exchange_cases [of app r] by (auto simp: remote_calls_def)

lemma confirm_login_calls:
  "remote_calls (fst (confirm_login net uid app)) = [] \<or>
   (\<exists>n r. remote_calls (fst (confirm_login net uid app)) = [Remote (ResultReq n uid) r])"
  using after_exchange_calls [of app]
  by (cases "get_enum_name (Val (JStr app))") (simp_all add: confirm_login_eq remote_calls_def)

lemma loop_body_calls:
  "remote_calls (fst (loop_body e payload uid app i)) = [] \<or>
   remote_calls (fst (loop_body e payload uid app i)) =
     [Remote (StatusReq payload) (net_status e i (StatusReq payload))] \<or>
   (\<exists>resp n r. confirmed resp \<and>
      remote_calls (fst (loop_body e payload uid app i)) =
        [Remote (StatusReq payload) (Inr resp), Remote (ResultReq n uid) r] \<and>
      snd (loop_body e payload uid app i) \<noteq> Continue)"
proof -
  let ?status = "get_qrcode_status (net_status e i) (JDict payload)"
  have polled: "remote_calls (fst ?status) = [] \<or> remote_calls (fst ?status) =
      [Remote (StatusReq payload) (net_status e i (StatusReq payload))]"
    using get_qrcode_status_events [of "net_status e i" "JDict payload"]
    by (auto split: sum.splits if_splits)
  from loop_body_shape [of e payload uid app i]
  consider (sleep) "loop_body e payload uid app i = ([Sleep 2], Break)"
    | (raised) ex where "loop_body e payload uid app i =
        ([Sleep 2, Status (MsgPollError ex), Sleep 3], Continue)"
    | (poll) "loop_body e payload uid app i = (Sleep 2 # fst ?status, Break)"
    | (handled) resp where "snd ?status = Inr resp"
        "loop_body e payload uid app i =
          (Sleep 2 # fst ?status @ fst (handle_status (net_result e) uid app resp),
           snd (handle_status (net_result e) uid app resp))"
    by blast
  then show ?thesis
  proof cases
    case sleep
    then show ?thesis by (simp add: remote_calls_def)
  next
    case raised
    then show ?thesis by (simp add: remote_calls_def)
  next
    case poll
    with polled show ?thesis by (auto simp: remote_calls_def)
  next
    case handled
    show ?thesis
    proof (cases "confirmed resp")
      case False
      from handle_status_not_confirmed_calls [OF this, of "net_result e" uid app]
        handled(2) polled
      show ?thesis by (auto simp: remote_calls_def)
    next
      case True
      then have hs: "handle_status (net_result e) uid app resp =
          confirm_login (net_result e) uid app"
        by (rule handle_status_confirmed)
      from get_qrcode_status_confirmed [OF handled(1) True]
      have status: "?status = ([Remote (StatusReq payload) (Inr resp)], Inr resp)"
        and answered: "net_status e i (StatusReq payload) = Inr resp"
        by simp_all
      from confirm_login_calls [of "net_result e" uid app] show ?thesis
      proof
        assume "remote_calls (fst (confirm_login (net_result e) uid app)) = []"
        with handled(2) hs status answered show ?thesis
          by (simp add: remote_calls_def)
      next
        assume "\<exists>n r. remote_calls (fst (confirm_login (net_result e) uid app)) =
                  [Remote (ResultReq n uid) r]"
        with handled(2) hs status True confirm_login_flow [of "net_result e" uid app]
        show ?thesis
          by (auto simp: remote_calls_def)
      qed
    qed
  qed
qed

lemma exchange_last_first: "exchange_last (c # cs) \<Longrightarrow> \<not> is_exchange c"
  by (cases cs) simp_all

lemma exchange_last_Cons: "\<not> is_exchange c \<Longrightarrow> exchange_last cs \<Longrightarrow> exchange_last (c # cs)"
  by (cases cs) (auto dest: exchange_last_first)

lemma exchange_last_append:
  "\<forall>c \<in> set cs. \<not> is_exchange c \<Longrightarrow> exchange_last cs' \<Longrightarrow> exchange_last (cs @ cs')"
  by (induction cs) (simp_all add: exchange_last_Cons)

lemma exchange_last_index:
  "exchange_last cs \<Longrightarrow> k < length cs \<Longrightarrow> is_exchange (cs ! k) \<Longrightarrow>
   0 < k \<and> is_confirmed_poll (cs ! (k - 1)) \<and> Suc k = length cs"
proof (induction cs arbitrary: k rule: exchange_last.induct)
  case 1
  then show ?case by simp
next
  case (2 c)
  then show ?case by simp
next
  case (3 c c' cs)
  show ?case
  proof (cases k)
    case 0
    with "3.prems" show ?thesis by simp
  next
    case (Suc j)
    show ?thesis
    proof (cases "is_exchange c'")
      case True
      with "3.prems" Suc show ?thesis by simp
    next
      case False
      with "3.prems" Suc have "exchange_last (c' # cs)" "j < length (c' # cs)"
        "is_exchange ((c' # cs) ! j)"
        by simp_all
      from "3.IH" [OF False this]
      have j: "0 < j \<and> is_confirmed_poll ((c' # cs) ! (j - 1)) \<and> Suc j = length (c' # cs)" .
      from j have pos: "0 < j" and conf: "is_confirmed_poll ((c' # cs) ! (j - 1))"
        and len: "Suc j = length (c' # cs)"
        by blast+
      from pos have eq: "(c # c' # cs) ! j = (c' # cs) ! (j - 1)"
        by (simp add: nth_Cons')
      from Suc have k: "k - 1 = j" by simp
      show ?thesis
      proof (intro conjI)
        show "0 < k" using Suc by simp
        show "is_confirmed_poll ((c # c' # cs) ! (k - 1))"
          unfolding k eq by (rule conf)
        show "Suc k = length (c # c' # cs)"
          using len Suc by simp
      qed
    qed
  qed
qed

lemma exchange_last_count: "exchange_last cs \<Longrightarrow> length (filter is_exchange cs) \<le> 1"
  by (induction cs rule: exchange_last.induct) (auto split: if_splits)

lemma remote_calls_append [simp]:
  "remote_calls (evs @ evs') = remote_calls evs @ remote_calls evs'"
  by (simp add: remote_calls_def)

lemma poll_loop_calls:
  "exchange_last (remote_calls (fst (poll_loop e payload uid app start now i)))"
proof (induction e payload uid app start now i rule: poll_loop.induct)
  case (1 e payload uid app start now i)
  let ?body = "loop_body e payload uid app i"
  show ?case
  proof (cases "\<not> active_read e i \<or> is_set e i AtLoopHead")
    case True
    then show ?thesis by (simp add: poll_loop_exit remote_calls_after_loop)
  next
    case head: False
    show ?thesis
    proof (cases "now - start > 180000")
      case True
      with head show ?thesis by (simp add: poll_loop_timeout remote_calls_def)
    next
      case False
      then have time: "now - start \<le> 180000" "\<not> timeout_seconds * 1000 < now - start"
        by (simp_all add: timeout_seconds_def)
      from head have act: "active_read e i" "\<not> is_set e i AtLoopHead"
        by simp_all
      have last_body: "exchange_last (remote_calls (fst ?body))"
        using loop_body_calls [of e payload uid app i] by auto
      show ?thesis
      proof (cases "snd ?body")
        case Continue
        note unfold = poll_loop_continue [OF act time(1) Continue]
        from loop_body_calls [of e payload uid app i] Continue
        have "\<forall>c \<in> set (remote_calls (fst ?body)). \<not> is_exchange c"
          by auto
        moreover from "1.IH" [OF _ time(2) Continue refl] head
        have "exchange_last (remote_calls (fst (poll_loop e payload uid app start
                (now + 1000 * int (slept (fst ?body)) + int (latency e i)) (Suc i))))"
          by simp
        ultimately show ?thesis
          by (simp add: unfold exchange_last_append)
      next
        case Break
        with last_body show ?thesis
          by (simp add: poll_loop_break [OF act time(1) Break] remote_calls_after_loop)
      next
        case (Raise ex)
        with last_body show ?thesis
          by (simp add: poll_loop_raise [OF act time(1) Raise])
      qed
    qed
  qed
qed

text \<open>The run of the worker: what comes before the loop, the loop, the handler.\<close>

lemma login_body_shape:
  "(\<exists>pre ex. login_body e app = (pre, Some ex) \<and>
      (\<forall>ev \<in> set pre. \<not> is_final ev \<and> \<not> is_poll ev)) \<or>
   (\<exists>pre payload uid.
      login_body e app =
        (pre @ fst (poll_loop e payload uid app (monotonic0 e) (monotonic0 e) 0),
         snd (poll_loop e payload uid app (monotonic0 e) (monotonic0 e) 0)) \<and>
      (\<forall>ev \<in> set pre. \<not> is_final ev \<and> \<not> is_poll ev))"
proof (cases "net_token e TokenReq")
  case (Inl err)
  then show ?thesis
    by (simp add: login_body_def get_qrcode_token_def)
next
  case (Inr token_resp)
  show ?thesis
  proof (cases "check_token token_resp")
    case (Inl ex)
    with Inr show ?thesis
      by (simp add: login_body_def get_qrcode_token_def)
  next
    case token: (Inr pu)
    obtain payload uid where pu: "pu = (payload, uid)"
      by (cases pu)
    show ?thesis
    proof (cases "net_image e uid")
      case (Inl err)
      with Inr token pu show ?thesis
        by (simp add: login_body_def get_qrcode_token_def get_qrcode_def)
    next
      case image: (Inr image_data)
      have "\<forall>ev \<in> set ([Status MsgGetToken, Remote TokenReq (Inr token_resp),
              Status MsgDownloadQR, ImageFetch uid (Inr image_data)] @
              display_qr_code e image_data @ [Status MsgWaitingScan]).
              \<not> is_final ev \<and> \<not> is_poll ev"
        by (simp add: display_qr_code_def show_error_def)
      with login_body_polling [OF Inr token [unfolded pu] image, of app] show ?thesis
        by (metis append.assoc append_Cons append_Nil)
    qed
  qed
qed

lemma show_error_quiet:
  "\<forall>ev \<in> set (show_error m @ [SetUiState s]). \<not> is_final ev \<and> \<not> is_remote ev"
  by (simp add: show_error_def)

text \<open>An exchange in a run: the app was resolved, the exchange is the one event of a
  login going through that the run has besides those that follow from its outcome,
  and an exception after it ends the run in the error box.\<close>

lemma session_exchange:
  assumes "Remote (ResultReq n u) r \<in> set (fst (login_thread_func e g))"
  shows "get_enum_name (Val (JStr (current_app_type g))) = Inr n"
    and "filter is_final (fst (login_thread_func e g)) =
           Remote (ResultReq n u) r # filter is_final (fst (after_exchange (current_app_type g) r))"
    and "snd (after_exchange (current_app_type g) r) = Raise ex \<Longrightarrow>
         \<exists>evs. fst (login_thread_func e g) =
           evs @ show_error (ErrLogin ex) @ [SetUiState ''finished'']"
proof -
  let ?app = "current_app_type g"
  let ?ev = "Remote (ResultReq n u) r"
  let ?handler = "\<lambda>r. case r of None \<Rightarrow> [] | Some ex \<Rightarrow> show_error (ErrLogin ex)"
  have run: "fst (login_thread_func e g) =
      fst (login_body e ?app) @ ?handler (snd (login_body e ?app)) @ [SetUiState ''finished'']"
    by (simp add: login_thread_func_def Let_def)
  have quiet: "\<forall>ev \<in> set (?handler x @ [SetUiState ''finished'']). \<not> is_final ev" for x
    by (cases x) (simp_all add: show_error_def)
  have quiet': "filter is_final (?handler x) = []" for x
    by (cases x) (simp_all add: show_error_def)
  from assms run quiet have in_body: "?ev \<in> set (fst (login_body e ?app))"
    by (metis Un_iff exchange_is_final set_append)
  from login_body_shape [of e ?app] in_body
  obtain pre payload uid where body: "login_body e ?app =
        (pre @ fst (poll_loop e payload uid ?app (monotonic0 e) (monotonic0 e) 0),
         snd (poll_loop e payload uid ?app (monotonic0 e) (monotonic0 e) 0))"
    and pre: "\<forall>ev \<in> set pre. \<not> is_final ev \<and> \<not> is_poll ev"
    using exchange_is_final by fastforce
  from pre have pre': "filter is_final pre = []"
    by (simp add: filter_empty_conv)
  from in_body body pre have "?ev \<in> set (fst (poll_loop e payload uid ?app (monotonic0 e) (monotonic0 e) 0))"
    using exchange_is_final by auto
  note loop = poll_loop_exchange [OF this]
  from loop show "get_enum_name (Val (JStr ?app)) = Inr n"
    by simp
  from loop have finals: "filter is_final (fst (poll_loop e payload uid ?app (monotonic0 e) (monotonic0 e) 0)) =
      ?ev # filter is_final (fst (after_exchange ?app r))"
    by simp
  show "filter is_final (fst (login_thread_func e g)) =
           ?ev # filter is_final (fst (after_exchange ?app r))"
    unfolding run body fst_conv snd_conv
    by (simp add: pre' finals quiet')
  show "\<exists>evs. fst (login_thread_func e g) =
           evs @ show_error (ErrLogin ex) @ [SetUiState ''finished'']"
    if "snd (after_exchange ?app r) = Raise ex"
  proof -
    from loop that have "snd (poll_loop e payload uid ?app (monotonic0 e) (monotonic0 e) 0) = Some ex"
      by simp
    then show ?thesis
      unfolding run body fst_conv snd_conv by simp
  qed
qed

lemma session_calls: "exchange_last (remote_calls (fst (login_thread_func e g)))"
proof -
  let ?app = "current_app_type g"
  let ?handler = "\<lambda>r. case r of None \<Rightarrow> [] | Some ex \<Rightarrow> show_error (ErrLogin ex)"
  have run: "fst (login_thread_func e g) =
      fst (login_body e ?app) @ ?handler (snd (login_body e ?app)) @ [SetUiState ''finished'']"
    by (simp add: login_thread_func_def Let_def)
  have quiet: "remote_calls (?handler x) = []" "remote_calls [SetUiState ''finished''] = []" for x
    by (cases x) (simp_all add: show_error_def remote_calls_def)
  have no_exchange: "\<forall>c \<in> set (remote_calls pre). \<not> is_exchange c"
    if "\<forall>ev \<in> set pre. \<not> is_final ev \<and> \<not> is_poll ev" for pre
  proof
    fix c assume "c \<in> set (remote_calls pre)"
    with that have "\<not> is_final c" by (simp add: remote_calls_def)
    then show "\<not> is_exchange c"
      by (cases c rule: is_exchange.cases) simp_all
  qed
  from login_body_shape [of e ?app] show ?thesis
  proof (elim disjE exE conjE)
    fix pre ex
    assume "login_body e ?app = (pre, Some ex)"
      and pre: "\<forall>ev \<in> set pre. \<not> is_final ev \<and> \<not> is_poll ev"
    moreover have "remote_calls (show_error (ErrLogin ex)) = []"
      by (simp add: show_error_def remote_calls_def)
    ultimately show ?thesis
      using exchange_last_append [OF no_exchange [OF pre], of "[]"]
      by (simp add: run quiet)
  next
    fix pre payload uid
    assume body: "login_body e ?app =
        (pre @ fst (poll_loop e payload uid ?app (monotonic0 e) (monotonic0 e) 0),
         snd (poll_loop e payload uid ?app (monotonic0 e) (monotonic0 e) 0))"
      and pre: "\<forall>ev \<in> set pre. \<not> is_final ev \<and> \<not> is_poll ev"
    have "remote_calls (fst (login_thread_func e g)) =
        remote_calls pre @
        remote_calls (fst (poll_loop e payload uid ?app (monotonic0 e) (monotonic0 e) 0))"
      unfolding run body fst_conv snd_conv
      by (simp add: quiet)
    with exchange_last_append [OF no_exchange [OF pre] poll_loop_calls] show ?thesis
      by simp
  qed
qed

section \<open>The exchange of the result\<close>

text \<open>
  Claim C3. Among the remote calls of a session there is at most one exchange
  (\<^verbatim>\<open>post_qrcode_result\<close>); the call right before it is a poll that was answered with
  a confirmed login (a true state and status 2), and no remote call follows it, so
  it is not tried again. When the exchange fails in the transport, the session shows
  no cookies and ends with the error box for that failure; whatever the exchange
  meets, the session either shows the cookies with the message of success or ends
  with an error box.
\<close>

theorem exchange_once_after_confirmed:
  "length (filter is_exchange (remote_calls (fst (login_thread_func e g)))) \<le> 1 \<and>
   (\<forall>k < length (remote_calls (fst (login_thread_func e g))).
      is_exchange (remote_calls (fst (login_thread_func e g)) ! k) \<longrightarrow>
        0 < k \<and>
        is_confirmed_poll (remote_calls (fst (login_thread_func e g)) ! (k - 1)) \<and>
        Suc k = length (remote_calls (fst (login_thread_func e g)))) \<and>
   (\<forall>n u err. Remote (ResultReq n u) (Inl err) \<in> set (fst (login_thread_func e g)) \<longrightarrow>
      (\<forall>c. Cookies c \<notin> set (fst (login_thread_func e g))) \<and>
      (\<exists>evs. fst (login_thread_func e g) =
         evs @ [ErrorBox (ErrLogin (wrap_error err)),
                Status (MsgError (ErrLogin (wrap_error err))), SetUiState ''finished''])) \<and>
   (\<forall>n u r. Remote (ResultReq n u) r \<in> set (fst (login_thread_func e g)) \<longrightarrow>
      (\<exists>c. Cookies c \<in> set (fst (login_thread_func e g)) \<and>
           Status MsgLoginSuccess \<in> set (fst (login_thread_func e g))) \<or>
      (\<exists>ex evs. fst (login_thread_func e g) =
         evs @ [ErrorBox (ErrLogin ex), Status (MsgError (ErrLogin ex)),
                SetUiState ''finished'']))"
proof (intro conjI allI impI)
  let ?run = "fst (login_thread_func e g)"
  note last = session_calls [of e g]
  show "length (filter is_exchange (remote_calls ?run)) \<le> 1"
    using last by (rule exchange_last_count)
  fix k
  assume "k < length (remote_calls ?run)" "is_exchange (remote_calls ?run ! k)"
  with exchange_last_index [OF last] show "0 < k"
    "is_confirmed_poll (remote_calls ?run ! (k - 1))" "Suc k = length (remote_calls ?run)"
    by blast+
next
  let ?run = "fst (login_thread_func e g)"
  fix n u err
  assume ev: "Remote (ResultReq n u) (Inl err) \<in> set ?run"
  have after: "after_exchange (current_app_type g) (Inl err) = ([], Raise (wrap_error err))"
    by (simp add: after_exchange_def)
  from session_exchange(2) [OF ev] after
  have finals: "filter is_final ?run = [Remote (ResultReq n u) (Inl err)]"
    by simp
  show "Cookies c \<notin> set ?run" for c
  proof
    assume "Cookies c \<in> set ?run"
    then have "Cookies c \<in> set (filter is_final ?run)" by simp
    with finals show False by simp
  qed
  from session_exchange(3) [OF ev, of "wrap_error err"] after
  show "\<exists>evs. ?run = evs @ [ErrorBox (ErrLogin (wrap_error err)),
                Status (MsgError (ErrLogin (wrap_error err))), SetUiState ''finished'']"
    by (simp add: show_error_def)
next
  let ?run = "fst (login_thread_func e g)"
  fix n u r
  assume ev: "Remote (ResultReq n u) r \<in> set ?run"
  from after_exchange_cases [of "current_app_type g" r]
  show "(\<exists>c. Cookies c \<in> set ?run \<and> Status MsgLoginSuccess \<in> set ?run) \<or>
      (\<exists>ex evs. ?run = evs @ [ErrorBox (ErrLogin ex), Status (MsgError (ErrLogin ex)),
                SetUiState ''finished''])"
  proof (elim disjE exE)
    fix c
    assume "after_exchange (current_app_type g) r =
        ([Cookies c, Status MsgLoginSuccess, InfoBox (InfoSuccess (current_app_type g))], Break)"
    with session_exchange(2) [OF ev]
    have "filter is_final ?run =
        [Remote (ResultReq n u) r, Cookies c, Status MsgLoginSuccess,
         InfoBox (InfoSuccess (current_app_type g))]"
      by simp
    then have "Cookies c \<in> set (filter is_final ?run)"
      "Status MsgLoginSuccess \<in> set (filter is_final ?run)"
      by simp_all
    then show ?thesis by auto
  next
    fix ex
    assume "after_exchange (current_app_type g) r = ([], Raise ex)"
    with session_exchange(3) [OF ev, of ex] show ?thesis
      by (auto simp: show_error_def)
  qed
qed

theorem exchange_once_after_confirmed_witness:
  "remote_calls (fst (login_thread_func scenario_exchange_down gui_windows)) =
     [Remote TokenReq (Inr token_ok), ImageFetch (JStr ''U1'') (Inr [137, 80, 78, 71]),
      Remote (StatusReq payload_U1) (Inr (status_response 2)),
      Remote (ResultReq ''windows'' (JStr ''U1'')) (Inl (URLError ''unreachable''))] \<and>
   is_confirmed_poll (remote_calls (fst (login_thread_func scenario_exchange_down gui_windows)) ! 2) \<and>
   (\<exists>evs. fst (login_thread_func scenario_exchange_down gui_windows) =
      evs @ [ErrorBox (ErrLogin (ConnectionError (URLError ''unreachable''))),
             Status (MsgError (ErrLogin (ConnectionError (URLError ''unreachable'')))),
             SetUiState ''finished''])"
proof -
  let ?run = "fst (login_thread_func scenario_exchange_down gui_windows)"
  have calls: "remote_calls ?run =
     [Remote TokenReq (Inr token_ok), ImageFetch (JStr ''U1'') (Inr [137, 80, 78, 71]),
      Remote (StatusReq payload_U1) (Inr (status_response 2)),
      Remote (ResultReq ''windows'' (JStr ''U1'')) (Inl (URLError ''unreachable''))]"
    by (simp add: run_defs sample_defs poll_loop.simps)
  have ev: "Remote (ResultReq ''windows'' (JStr ''U1'')) (Inl (URLError ''unreachable''))
      \<in> set ?run"
    by (simp add: run_defs sample_defs poll_loop.simps)
  note inst = exchange_once_after_confirmed [of scenario_exchange_down gui_windows]
  from inst have "\<forall>k < length (remote_calls ?run).
      is_exchange (remote_calls ?run ! k) \<longrightarrow>
        0 < k \<and> is_confirmed_poll (remote_calls ?run ! (k - 1)) \<and>
        Suc k = length (remote_calls ?run)"
    by (elim conjE)
  from this [rule_format, of 3] calls have "is_confirmed_poll (remote_calls ?run ! 2)"
    by simp
  moreover from inst ev have "\<exists>evs. ?run =
      evs @ [ErrorBox (ErrLogin (ConnectionError (URLError ''unreachable''))),
             Status (MsgError (ErrLogin (ConnectionError (URLError ''unreachable'')))),
             SetUiState ''finished'']"
    by (elim conjE) (drule spec, drule spec, drule spec, drule (1) mp, simp)
  ultimately show ?thesis using calls by simp
qed

section \<open>An exchange without cookies\<close>

lemma finish_login_no_cookies:
  assumes "truthy (state_of login_result)" and "cookies_of login_result = Some cookies"
    and "\<not> truthy cookies"
  shows "finish_login app login_result = ([], Raise (RuntimeError (CookieEmpty login_result)))"
proof -
  from assms(2) obtain d where d: "login_result = JDict d"
    by (cases login_result) simp_all
  from assms(1) d have "d \<noteq> []" "truthy (dict_get d ''state'' JNull)"
    by (auto simp: dict_get_def)
  moreover from assms(2) d obtain dd where "dict_get d ''data'' (JDict []) = JDict dd"
    "dict_get dd ''cookie'' (JDict []) = cookies"
    by (auto split: json.splits)
  ultimately show ?thesis
    using assms(3) by (simp add: finish_login_def d)
qed

text \<open>
  Claim C4. When the exchange of a session (made only after a confirmed poll, by C3)
  returns a response with a true state whose cookie mapping is empty, the session
  ends as a failure: the worker raises the \<^verbatim>\<open>RuntimeError\<close> of line 351, the run ends
  with the error box for it, and it shows no cookies, no message of success and no
  information box.
\<close>

theorem empty_cookies_fail:
  assumes "Remote (ResultReq n u) (Inr login_result) \<in> set (fst (login_thread_func e g))"
    and "truthy (state_of login_result)"
    and "cookies_of login_result = Some (JDict [])"
  shows "(\<exists>evs. fst (login_thread_func e g) =
            evs @ [ErrorBox (ErrLogin (RuntimeError (CookieEmpty login_result))),
                   Status (MsgError (ErrLogin (RuntimeError (CookieEmpty login_result)))),
                   SetUiState ''finished'']) \<and>
         (\<forall>c. Cookies c \<notin> set (fst (login_thread_func e g))) \<and>
         Status MsgLoginSuccess \<notin> set (fst (login_thread_func e g)) \<and>
         (\<forall>m. InfoBox m \<notin> set (fst (login_thread_func e g)))"
proof -
  let ?run = "fst (login_thread_func e g)"
  have after: "after_exchange (current_app_type g) (Inr login_result) =
      ([], Raise (RuntimeError (CookieEmpty login_result)))"
    using finish_login_no_cookies [OF assms(2,3)] by (simp add: after_exchange_def)
  from session_exchange(2) [OF assms(1)] after
  have finals: "filter is_final ?run = [Remote (ResultReq n u) (Inr login_result)]"
    by simp
  have absent: "ev \<notin> set ?run" if "is_final ev" "ev \<noteq> Remote (ResultReq n u) (Inr login_result)" for ev
  proof
    assume "ev \<in> set ?run"
    with that(1) have "ev \<in> set (filter is_final ?run)" by simp
    with finals that(2) show False by simp
  qed
  from session_exchange(3) [OF assms(1), of "RuntimeError (CookieEmpty login_result)"] after
  have "\<exists>evs. ?run =
            evs @ [ErrorBox (ErrLogin (RuntimeError (CookieEmpty login_result))),
                   Status (MsgError (ErrLogin (RuntimeError (CookieEmpty login_result)))),
                   SetUiState ''finished'']"
    by (simp add: show_error_def)
  moreover have "\<forall>c. Cookies c \<notin> set ?run" "Status MsgLoginSuccess \<notin> set ?run"
    "\<forall>m. InfoBox m \<notin> set ?run"
    by (simp_all add: absent)
  ultimately show ?thesis by blast
qed

theorem empty_cookies_fail_witness:
  "Remote (ResultReq ''windows'' (JStr ''U1'')) (Inr cookies_empty)
     \<in> set (fst (login_thread_func scenario_E gui_windows)) \<and>
   (\<exists>evs. fst (login_thread_func scenario_E gui_windows) =
      evs @ [ErrorBox (ErrLogin (RuntimeError (CookieEmpty cookies_empty))),
             Status (MsgError (ErrLogin (RuntimeError (CookieEmpty cookies_empty)))),
             SetUiState ''finished'']) \<and>
   (\<forall>c. Cookies c \<notin> set (fst (login_thread_func scenario_E gui_windows)))"
proof -
  have ev: "Remote (ResultReq ''windows'' (JStr ''U1'')) (Inr cookies_empty)
     \<in> set (fst (login_thread_func scenario_E gui_windows))"
    by (simp add: run_defs sample_defs poll_loop.simps)
  have "truthy (state_of cookies_empty)" "cookies_of cookies_empty = Some (JDict [])"
    by (simp_all add: cookies_empty_def dict_get_def)
  from empty_cookies_fail [OF ev this] ev show ?thesis by blast
qed

section \<open>The cadence of the polls\<close>

lemma handle_network_error_response:
  "handle_status net uid app (network_error_response s) =
     ([Status (MsgPollFailed (Some (JStr s)))], Continue)"
  by (simp add: handle_status_def network_error_response_def dict_get_def err_msg_def)

text \<open>The one way to the sleep of line 321: the exception of \<^verbatim>\<open>urlencode\<close>.\<close>

lemma poll_exception_sleeps_five:
  assumes "urlencode (JDict payload) = Inl ex" and "\<not> is_set e i AfterSleep"
  shows "loop_body e payload uid app i =
           ([Sleep 2, Status (MsgPollError ex), Sleep 3], Continue)"
  using assms by (simp add: loop_body_def get_qrcode_status_raises)

text \<open>
  Claim C5 says that an iteration whose poll ends in a transient error waits 3 seconds
  more than the 2 seconds between polls. The source sleeps 3 seconds at line 321, in
  the handler for an exception raised by \<^verbatim>\<open>get_qrcode_status\<close>; that function
  turns every error of the transport into a response and raises only what
  \<^verbatim>\<open>urlencode\<close> raises before the request. So the iteration of a transient error
  (the request is built, the poll fails with anything but a timeout, the worker is
  not stopped) sleeps the 2 seconds of line 314 and no more, shows the error of the
  response in the status line, and the next iteration begins 2 seconds and the
  latency of the call later.
\<close>

theorem transient_error_sleeps_two_seconds:
  assumes "net_status e i (StatusReq payload) = Inl err" and "\<forall>s. err \<noteq> TimeoutError s"
    and "\<not> is_set e i AfterSleep" and "\<not> is_set e i AfterPoll"
    and "\<not> unencodable payload"
  shows "loop_body e payload uid app i =
           ([Sleep 2, Remote (StatusReq payload) (Inl err), Print (WarnStatus err),
             Status (MsgPollFailed (Some (JStr (str_of err))))], Continue) \<and>
         slept (fst (loop_body e payload uid app i)) = 2 \<and>
         (active_read e i \<and> \<not> is_set e i AtLoopHead \<and> now - start \<le> 180000 \<longrightarrow>
          poll_loop e payload uid app start now i =
            (fst (loop_body e payload uid app i) @
               fst (poll_loop e payload uid app start (now + 2000 + int (latency e i)) (Suc i)),
             snd (poll_loop e payload uid app start (now + 2000 + int (latency e i)) (Suc i))))"
proof -
  have body: "loop_body e payload uid app i =
           ([Sleep 2, Remote (StatusReq payload) (Inl err), Print (WarnStatus err),
             Status (MsgPollFailed (Some (JStr (str_of err))))], Continue)"
    using assms get_qrcode_status_transient [of "JDict payload" payload "net_status e i" err]
    by (simp add: loop_body_def handle_network_error_response)
  then have two: "slept (fst (loop_body e payload uid app i)) = 2"
    by simp
  have "poll_loop e payload uid app start now i =
            (fst (loop_body e payload uid app i) @
               fst (poll_loop e payload uid app start (now + 2000 + int (latency e i)) (Suc i)),
             snd (poll_loop e payload uid app start (now + 2000 + int (latency e i)) (Suc i)))"
    if "active_read e i" "\<not> is_set e i AtLoopHead" "now - start \<le> 180000"
    using poll_loop_continue [OF that, of payload uid app] body two by simp
  with body two show ?thesis by blast
qed

theorem transient_error_sleeps_two_seconds_witness:
  "loop_body scenario_transient payload_U1 (JStr ''U1'') ''windows'' 0 =
     ([Sleep 2, Remote (StatusReq payload_U1) (Inl (URLError ''unreachable'')),
       Print (WarnStatus (URLError ''unreachable'')),
       Status (MsgPollFailed (Some (JStr ''unreachable'')))], Continue) \<and>
   slept (fst (loop_body scenario_transient payload_U1 (JStr ''U1'') ''windows'' 0)) = 2"
  using transient_error_sleeps_two_seconds
    [of scenario_transient 0 payload_U1 "URLError ''unreachable''" "JStr ''U1''" "''windows''"]
  by (simp add: scenario_transient_def scenario_A_def unencodable_def payload_U1_def)

section \<open>A status code the client does not know\<close>

lemma unknown_status_data:
  assumes "unknown_status resp"
  obtains d status_data where "resp = JDict d"
    and "dict_get d ''data'' (JDict []) = JDict status_data"
    and "\<not> py_eq_int (dict_get status_data ''status'' JNull) 0"
    and "\<not> py_eq_int (dict_get status_data ''status'' JNull) 1"
    and "\<not> py_eq_int (dict_get status_data ''status'' JNull) 2"
    and "\<not> py_eq_int (dict_get status_data ''status'' JNull) (- 1)"
    and "\<not> py_eq_int (dict_get status_data ''status'' JNull) (- 2)"
    and "\<not> py_eq_int (dict_get status_data ''status'' JNull) (- 99)"
proof (cases resp)
  case (JDict d)
  with assms obtain status_data where "dict_get d ''data'' (JDict []) = JDict status_data"
    by (auto simp: unknown_status_def status_of_def split: json.splits option.splits)
  with assms JDict that show ?thesis
    by (auto simp: unknown_status_def status_of_def)
qed (use assms in \<open>simp_all add: unknown_status_def status_of_def\<close>)

lemma handle_unknown_status_eq:
  assumes "unknown_status resp"
  shows "handle_status net uid app resp =
           (if \<not> truthy resp then ([Status MsgEmptyPoll], Continue)
            else if \<not> truthy (state_of resp)
            then (case resp of JDict d \<Rightarrow> ([Status (MsgPollFailed (err_msg d))], Continue)
                  | _ \<Rightarrow> ([], Raise AttributeError))
            else ([Status (MsgUnknownStatus (the (status_of resp)) (JDict (the (data_of resp)))),
                   Print (WarnUnknown resp)], Continue))"
proof -
  from assms obtain d status_data where resp: "resp = JDict d"
    and data: "dict_get d ''data'' (JDict []) = JDict status_data"
    and codes: "\<not> py_eq_int (dict_get status_data ''status'' JNull) 0"
      "\<not> py_eq_int (dict_get status_data ''status'' JNull) 1"
      "\<not> py_eq_int (dict_get status_data ''status'' JNull) 2"
      "\<not> py_eq_int (dict_get status_data ''status'' JNull) (- 1)"
      "\<not> py_eq_int (dict_get status_data ''status'' JNull) (- 2)"
      "\<not> py_eq_int (dict_get status_data ''status'' JNull) (- 99)"
    by (rule unknown_status_data)
  have "dispatch net uid app (JDict d) status_data =
      ([Status (MsgUnknownStatus (dict_get status_data ''status'' JNull) (JDict status_data)),
        Print (WarnUnknown (JDict d))], Continue)"
    using codes by (simp add: dispatch_def Let_def)
  then show ?thesis
    by (simp add: handle_status_def resp data status_of_def)
qed

lemma handle_unknown_status:
  assumes "unknown_status resp"
  shows "snd (handle_status net uid app resp) = Continue"
    and "length (filter is_status (fst (handle_status net uid app resp))) = 1"
    and "\<forall>ev \<in> set (fst (handle_status net uid app resp)).
           is_status ev \<or> (\<exists>w. ev = Print w)"
    and "truthy (state_of resp) \<Longrightarrow>
         fst (handle_status net uid app resp) =
           [Status (MsgUnknownStatus (the (status_of resp)) (JDict (the (data_of resp)))),
            Print (WarnUnknown resp)]"
proof -
  from assms obtain d where resp: "resp = JDict d"
    by (rule unknown_status_data)
  have state: "truthy (state_of resp) \<Longrightarrow> truthy resp"
    by (auto simp: resp dict_get_def)
  note eq = handle_unknown_status_eq [OF assms, of net uid app]
  show "snd (handle_status net uid app resp) = Continue"
    by (simp add: eq) (simp add: resp)
  show "length (filter is_status (fst (handle_status net uid app resp))) = 1"
    by (simp add: eq) (simp add: resp)
  show "\<forall>ev \<in> set (fst (handle_status net uid app resp)).
           is_status ev \<or> (\<exists>w. ev = Print w)"
    by (simp add: eq) (simp add: resp)
  show "fst (handle_status net uid app resp) =
           [Status (MsgUnknownStatus (the (status_of resp)) (JDict (the (data_of resp)))),
            Print (WarnUnknown resp)]" if "truthy (state_of resp)"
    using that state by (simp add: eq)
qed

lemma slept_no_sleep:
  "\<forall>ev \<in> set evs. is_status ev \<or> (\<exists>w. ev = Print w) \<Longrightarrow> slept evs = 0"
  by (induction evs rule: slept.induct) auto

text \<open>
  Claim C6. When a poll returns a response whose status code is none of 0, 1, 2, -1,
  -2 and -99 (the request was built and the stop event is not set), the iteration ends in \<^verbatim>\<open>continue\<close>: it
  makes exactly one status update and besides it only prints a warning, with no
  message box, no remote call and no exception; for a response with a true state the
  update is the advisory of line 366. The loop goes on with the next iteration on the
  same payload, uid, app and start time.
\<close>

theorem unknown_status_keeps_polling:
  assumes "net_status e i (StatusReq payload) = Inr resp" and "unknown_status resp"
    and "\<not> is_set e i AfterSleep" and "\<not> is_set e i AfterPoll"
    and "\<not> unencodable payload"
  shows "snd (loop_body e payload uid app i) = Continue \<and>
         fst (loop_body e payload uid app i) =
           Sleep 2 # Remote (StatusReq payload) (Inr resp) #
             fst (handle_status (net_result e) uid app resp) \<and>
         length (filter is_status (fst (handle_status (net_result e) uid app resp))) = 1 \<and>
         (\<forall>ev \<in> set (fst (handle_status (net_result e) uid app resp)).
            is_status ev \<or> (\<exists>w. ev = Print w)) \<and>
         (truthy (state_of resp) \<longrightarrow>
            fst (handle_status (net_result e) uid app resp) =
              [Status (MsgUnknownStatus (the (status_of resp)) (JDict (the (data_of resp)))),
               Print (WarnUnknown resp)]) \<and>
         (active_read e i \<and> \<not> is_set e i AtLoopHead \<and> now - start \<le> 180000 \<longrightarrow>
          poll_loop e payload uid app start now i =
            (fst (loop_body e payload uid app i) @
               fst (poll_loop e payload uid app start (now + 2000 + int (latency e i)) (Suc i)),
             snd (poll_loop e payload uid app start (now + 2000 + int (latency e i)) (Suc i))))"
proof -
  note handled = handle_unknown_status [OF assms(2), of "net_result e" uid app]
  have body: "loop_body e payload uid app i =
      (Sleep 2 # Remote (StatusReq payload) (Inr resp) #
         fst (handle_status (net_result e) uid app resp), Continue)"
    using assms(1,3,4,5) handled(1)
      get_qrcode_status_passes [of "JDict payload" payload "net_status e i" resp]
    by (simp add: loop_body_def)
  have "slept (fst (handle_status (net_result e) uid app resp)) = 0"
    using handled(3) by (rule slept_no_sleep)
  with body have two: "slept (fst (loop_body e payload uid app i)) = 2"
    by simp
  have "poll_loop e payload uid app start now i =
            (fst (loop_body e payload uid app i) @
               fst (poll_loop e payload uid app start (now + 2000 + int (latency e i)) (Suc i)),
             snd (poll_loop e payload uid app start (now + 2000 + int (latency e i)) (Suc i)))"
    if "active_read e i" "\<not> is_set e i AtLoopHead" "now - start \<le> 180000"
    using poll_loop_continue [OF that, of payload uid app] body two by simp
  with body handled show ?thesis by simp
qed

theorem unknown_status_keeps_polling_witness:
  "loop_body scenario_unknown payload_U1 (JStr ''U1'') ''windows'' 0 =
     ([Sleep 2, Remote (StatusReq payload_U1) (Inr (status_response 7)),
       Status (MsgUnknownStatus (JInt 7) (JDict [(''status'', JInt 7)])),
       Print (WarnUnknown (status_response 7))], Continue)"
proof -
  have "unknown_status (status_response 7)"
    by (simp add: unknown_status_def status_of_def status_response_def dict_get_def)
  from unknown_status_keeps_polling
    [of scenario_unknown 0 payload_U1 "status_response 7" "JStr ''U1''" "''windows''", OF _ this]
  show ?thesis
    by (simp add: scenario_unknown_def scenario_A_def prod_eq_iff unencodable_def
        payload_U1_def)
      (simp add: status_response_def status_of_def dict_get_def)
qed

section \<open>A device class outside the enumeration\<close>







lemma no_final_no_exchange:
  "filter is_final evs = [] \<Longrightarrow> filter (\<lambda>c. \<not> is_exchange c) (remote_calls evs) = remote_calls evs"
proof -
  assume quiet: "filter is_final evs = []"
  have "\<not> is_exchange c" if "c \<in> set (remote_calls evs)" for c
  proof
    assume "is_exchange c"
    then have "is_final c" by (cases c rule: is_exchange.cases) simp_all
    with that quiet show False
      by (auto simp: remote_calls_def filter_empty_conv)
  qed
  then show ?thesis by (simp add: filter_id_conv)
qed




















section \<open>Cancellation\<close>








section \<open>The guard against a second session\<close>

lemma set_ui_state_finished: "polling_active (set_ui_state ''finished'' g) = False"
  by (simp add: set_ui_state_def)

text \<open>
  Claim C9. However the worker ends (the model is a total function, so it always
  does: with success, an exception of any kind, an expired or cancelled code, the
  timeout or a stop), \<^verbatim>\<open>polling_active\<close> is false afterwards, as it is after the
  \<^verbatim>\<open>set_ui_state('finished')\<close> that \<^verbatim>\<open>stop_polling\<close> schedules; so the next
  \<^verbatim>\<open>start_login_process\<close> is not turned away as "already running", and leaves the
  guard false in its turn.
\<close>

theorem polling_active_reset:
  "polling_active (snd (login_thread_func e g)) = False \<and>
   polling_active (set_ui_state ''finished'' g) = False \<and>
   fst (start_login_process e' (snd (login_thread_func e g))) \<noteq> [InfoBox InfoRunning] \<and>
   polling_active (snd (start_login_process e' (snd (login_thread_func e g)))) = False"
proof -
  have reset: "polling_active (snd (login_thread_func e g)) = False" for e g
    by (simp add: login_thread_func_def Let_def set_ui_state_finished)
  have "fst (start_login_process e' g') \<noteq> [InfoBox InfoRunning] \<and>
        polling_active (snd (start_login_process e' g')) = False"
    if "polling_active g' = False" for g'
    using that by (simp add: start_login_process_def Let_def show_error_def reset)
  with reset [of e g] show ?thesis
    by (simp add: set_ui_state_finished)
qed

theorem polling_active_reset_witness:
  "polling_active (snd (login_thread_func scenario_E gui_windows)) = False \<and>
   polling_active (snd (login_thread_func scenario_D gui_windows)) = False \<and>
   polling_active (snd (start_login_process scenario_A
      (snd (login_thread_func scenario_E gui_windows)))) = False"
  using polling_active_reset [of scenario_E gui_windows scenario_A]
    polling_active_reset [of scenario_D gui_windows scenario_A]
  by simp

section \<open>The device class of the exchange\<close>








end
